theory Spec2Isabelle
  imports Complex_Main "HOL-Library.Multiset"
begin

section \<open>Conventions of the embedding\<close>

text \<open>
  The sources are Python 2 modules (\<^verbatim>\<open>from __future__ import print_function\<close>,
  \<^verbatim>\<open>unicode\<close>, \<^verbatim>\<open>imp\<close>, PyQt4) over numpy, astropy, linetools and pyigm.

  \<^item> A Python float and a numpy float64 are a \<open>real\<close>; a one-dimensional numpy array,
    an astropy \<open>Quantity\<close> array and a table column are lists, units dropped (each
    column is kept in the unit the source converts to: km/s, kpc, Angstrom). Rounding
    is outside the model. Where a statement depends on a quotient whose divisor can be
    zero, the quotient is an \<open>npfloat\<close>, with numpy's \<open>inf\<close> and \<open>nan\<close>; elsewhere the
    theorems assume the divisors non-zero.
  \<^item> A Python exception is a value of \<open>py_error\<close>; a function that can raise returns
    \<open>py_error + 'a\<close>. A Python \<open>None\<close> result is \<open>None\<close> of an option type.
  \<^item> Functions of libraries that are not part of the sources (Voigt profiles,
    convolution, sky separations, the cosmology, power, logarithm) are parameters of the
    definitions that call them.
\<close>

datatype py_error =
  ValueError | TypeError | KeyError | IndexError | AttributeError | ZeroDivisionError

definition ebind :: "'e + 'a \<Rightarrow> ('a \<Rightarrow> 'e + 'b) \<Rightarrow> 'e + 'b" where
  "ebind m f = (case m of Inl e \<Rightarrow> Inl e | Inr x \<Rightarrow> f x)"

text \<open>Python 2 orders \<open>None\<close> below every number: \<open>None > x\<close> is \<open>False\<close>.\<close>

definition py2_gt :: "real option \<Rightarrow> real \<Rightarrow> bool" where
  "py2_gt a b = (case a of None \<Rightarrow> False | Some v \<Rightarrow> v > b)"

subsection \<open>numpy on one-dimensional arrays\<close>

text \<open>\<^verbatim>\<open>np.where(mask)[0]\<close>: the indices at which a boolean array is true, ascending.\<close>

definition np_where :: "bool list \<Rightarrow> nat list" where
  "np_where m = filter (\<lambda>i. m ! i) [0..<length m]"

text \<open>\<^verbatim>\<open>a[idx]\<close> for an index array that \<open>np_where\<close> produced from an array as long as \<open>a\<close>.\<close>

definition rows_at :: "'a list \<Rightarrow> nat list \<Rightarrow> 'a list" where
  "rows_at xs idx = map (\<lambda>i. xs ! i) idx"

text \<open>\<^verbatim>\<open>a[mask]\<close> for a boolean array \<open>mask\<close> as long as \<open>a\<close>.\<close>

definition mask_select :: "'a list \<Rightarrow> bool list \<Rightarrow> 'a list" where
  "mask_select xs m = map fst (filter snd (zip xs m))"

text \<open>\<^verbatim>\<open>a[idx] = v\<close> for an index array \<open>idx\<close> within range and a scalar \<open>v\<close>.\<close>

definition set_at :: "'a list \<Rightarrow> nat list \<Rightarrow> 'a \<Rightarrow> 'a list" where
  "set_at xs idx v = fold (\<lambda>i ys. ys[i := v]) idx xs"

section \<open>cgm/field.py: IgmGalaxyField\<close>

record galaxy =
  RA :: real
  DEC :: real
  Z :: real

text \<open>A masked table entry is \<open>None\<close>.\<close>

record target =
  TARG_RA :: real
  TARG_DEC :: real
  MASK_NAME :: "string option"

record obs_row =
  obs_MASK_NAME :: string
  DATE_OBS :: "string option"

record field =
  name :: string
  coord :: "real \<times> real"
  galaxies :: "galaxy list option"
  targets :: "target list option"
  observing :: "obs_row list option"

text \<open>\<^verbatim>\<open>const.c.to('km/s')\<close>.\<close>

definition c_kms :: real where
  "c_kms = 299792.458"

text \<open>
  A float that a division produced: numpy divides by zero without raising and gives
  \<open>inf\<close>, \<open>-inf\<close> or \<open>nan\<close> (with a warning). \<open>1 + z\<close> is \<open>+0.0\<close> when it is zero, so
  the sign of the quotient is the sign of the numerator. Comparisons with \<open>nan\<close> are
  false.
\<close>

datatype npfloat = Finite real | PosInf | NegInf | NaN

definition np_divide :: "real \<Rightarrow> real \<Rightarrow> npfloat" where
  "np_divide a b =
     (if b \<noteq> 0 then Finite (a / b)
      else if a > 0 then PosInf
      else if a < 0 then NegInf
      else NaN)"

text \<open>\<^verbatim>\<open>np.abs(v) < t\<close> and \<^verbatim>\<open>v < t\<close> for a finite bound \<open>t\<close>.\<close>

definition np_abs_lt :: "npfloat \<Rightarrow> real \<Rightarrow> bool" where
  "np_abs_lt v t = (case v of Finite x \<Rightarrow> \<bar>x\<bar> < t | _ \<Rightarrow> False)"

definition np_lt :: "npfloat \<Rightarrow> real \<Rightarrow> bool" where
  "np_lt v t = (case v of Finite x \<Rightarrow> x < t | NegInf \<Rightarrow> True | _ \<Rightarrow> False)"

text \<open>
  \<open>calc_rhoimpact\<close>. \<open>separation a b\<close> is astropy's \<^verbatim>\<open>a.separation(b).to('arcmin')\<close>
  on (RA, DEC) pairs in degrees and \<open>kpc_amin\<close> the cosmology's
  \<^verbatim>\<open>kpc_comoving_per_arcmin\<close>. The array expression works row by row; \<open>rho1\<close> is
  its value on one row: \<^verbatim>\<open>ang_sep * kpc_amin / (1 + Z)\<close>.
\<close>

definition rho1 ::
  "(real \<times> real \<Rightarrow> real \<times> real \<Rightarrow> real) \<Rightarrow> (real \<Rightarrow> real) \<Rightarrow> field \<Rightarrow> galaxy \<Rightarrow> npfloat" where
  "rho1 separation kpc_amin fld g =
     np_divide (separation (RA g, DEC g) (coord fld) * kpc_amin (Z g)) (1 + Z g)"

definition calc_rhoimpact ::
  "(real \<times> real \<Rightarrow> real \<times> real \<Rightarrow> real) \<Rightarrow> (real \<Rightarrow> real) \<Rightarrow> field \<Rightarrow> galaxy list \<Rightarrow> npfloat list" where
  "calc_rhoimpact separation kpc_amin fld obj = map (rho1 separation kpc_amin fld) obj"

text \<open>\<open>get_associated_galaxies\<close>: \<^verbatim>\<open>dv_gal = c * (Z - z) / (1 + z)\<close>, then the cut on
  \<open>rho\<close>. \<^verbatim>\<open>self.galaxies['Z']\<close> raises TypeError while the table is \<open>None\<close>.\<close>

definition get_associated_galaxies ::
  "(real \<times> real \<Rightarrow> real \<times> real \<Rightarrow> real) \<Rightarrow> (real \<Rightarrow> real) \<Rightarrow> field \<Rightarrow> real \<Rightarrow> real \<Rightarrow> real
     \<Rightarrow> py_error + (galaxy list \<times> npfloat list) option" where
  "get_associated_galaxies separation kpc_amin fld z R dv_tol =
     (case galaxies fld of
        None \<Rightarrow> Inl TypeError
      | Some gals \<Rightarrow>
          let dv_gal = map (\<lambda>g. np_divide (c_kms * (Z g - z)) (1 + z)) gals;
              gdz = np_where (map (\<lambda>dv. np_abs_lt dv dv_tol) dv_gal)
          in if length gdz = 0 then Inr None
             else
               let gdz_gal = rows_at gals gdz;
                   rho = calc_rhoimpact separation kpc_amin fld gdz_gal;
                   gd_rho = np_where (map (\<lambda>r. np_lt r R) rho)
               in if length gd_rho = 0 then Inr None
                  else Inr (Some (rows_at gdz_gal gd_rho, rows_at rho gd_rho)))"

text \<open>\<open>get_mask_obsdate\<close>: \<^verbatim>\<open>mt[0]\<close> raises IndexError when no row of the observing
  table carries the mask name.\<close>

definition get_mask_obsdate :: "field \<Rightarrow> string \<Rightarrow> py_error + string option list" where
  "get_mask_obsdate fld mask_name =
     (case observing fld of
        None \<Rightarrow> Inl ValueError
      | Some obs \<Rightarrow>
          let mt = np_where (map (\<lambda>r. obs_MASK_NAME r = mask_name) obs)
          in (case mt of
                [] \<Rightarrow> Inl IndexError
              | m0 # _ \<Rightarrow>
                  if DATE_OBS (obs ! m0) = None then Inr []
                  else Inr (map (\<lambda>imt. DATE_OBS (obs ! imt)) mt)))"

text \<open>\<open>within_theta\<close> is the angular cut both \<open>get_observed\<close> and \<open>get_unobserved\<close>
  start with: \<^verbatim>\<open>self.targets[np.where(sep < theta)[0]]\<close>.\<close>

definition within_theta ::
  "(real \<times> real \<Rightarrow> real \<times> real \<Rightarrow> real) \<Rightarrow> field \<Rightarrow> target list \<Rightarrow> real \<Rightarrow> target list" where
  "within_theta separation fld targs theta =
     (let sep = map (\<lambda>t. separation (coord fld) (TARG_RA t, TARG_DEC t)) targs;
          gdsep = np_where (map (\<lambda>s. s < theta) sep)
      in rows_at targs gdsep)"

text \<open>The loop of \<open>get_observed\<close> over the unique mask names. \<open>all_masks\<close> is
  \<^verbatim>\<open>subtab['MASK_NAME'][have_mask]\<close>.\<close>

fun observed_loop ::
  "field \<Rightarrow> string list \<Rightarrow> nat list \<Rightarrow> string list
     \<Rightarrow> bool list \<times> (string \<rightharpoonup> string option list)
     \<Rightarrow> py_error + bool list \<times> (string \<rightharpoonup> string option list)" where
  "observed_loop fld all_masks have_mask [] acc = Inr acc"
| "observed_loop fld all_masks have_mask (msk # rest) (tmsk, obs_dict) =
     (case get_mask_obsdate fld msk of
        Inl e \<Rightarrow> Inl e
      | Inr obs_dates \<Rightarrow>
          if length obs_dates > 0 then
            let mt2 = np_where (map (\<lambda>m. m = msk) all_masks)
            in observed_loop fld all_masks have_mask rest
                 (set_at tmsk (rows_at have_mask mt2) True, obs_dict(msk \<mapsto> obs_dates))
          else observed_loop fld all_masks have_mask rest (tmsk, obs_dict))"

text \<open>\<open>get_observed\<close>. \<^verbatim>\<open>np.unique\<close> also sorts the names; the order only decides
  which insertion into the dict \<open>obs_dict\<close> comes first, so \<open>remdups\<close> stands for it.\<close>

definition get_observed ::
  "(real \<times> real \<Rightarrow> real \<times> real \<Rightarrow> real) \<Rightarrow> field \<Rightarrow> real \<Rightarrow> target list option
     \<Rightarrow> py_error + (target list \<times> (string \<rightharpoonup> string option list)) option" where
  "get_observed separation fld theta subtab0 =
     (case (targets fld, observing fld) of
        (Some targs, Some obs) \<Rightarrow>
          let subtab = (case subtab0 of
                          None \<Rightarrow> within_theta separation fld targs theta
                        | Some s \<Rightarrow> s)
          in if subtab0 = None \<and> length subtab = 0 then Inr None
             else
               let tmsk = replicate (length subtab) False;
                   have_mask = np_where (map (\<lambda>t. MASK_NAME t \<noteq> None) subtab)
               in if length have_mask = 0 then Inr None
                  else
                    let all_masks = map (\<lambda>i. the (MASK_NAME (subtab ! i))) have_mask;
                        uni_masks = remdups all_masks
                    in (case observed_loop fld all_masks have_mask uni_masks (tmsk, Map.empty) of
                          Inl e \<Rightarrow> Inl e
                        | Inr (tmsk', obs_dict) \<Rightarrow> Inr (Some (mask_select subtab tmsk', obs_dict)))
      | _ \<Rightarrow> Inl ValueError)"

text \<open>The loop of \<open>get_unobserved\<close> over \<^verbatim>\<open>enumerate(subtab)\<close>.\<close>

fun unobserved_loop :: "real list \<Rightarrow> (nat \<times> target) list \<Rightarrow> bool list \<Rightarrow> bool list" where
  "unobserved_loop obs_ra [] tmsk = tmsk"
| "unobserved_loop obs_ra ((kk, row) # rest) tmsk =
     (if TARG_RA row \<in> set obs_ra
      then unobserved_loop obs_ra rest (tmsk[kk := False])
      else unobserved_loop obs_ra rest tmsk)"

text \<open>\<open>get_unobserved\<close>. Unpacking \<^verbatim>\<open>obs_tab, odict = None\<close> raises TypeError.\<close>

definition get_unobserved ::
  "(real \<times> real \<Rightarrow> real \<times> real \<Rightarrow> real) \<Rightarrow> field \<Rightarrow> real \<Rightarrow> py_error + target list option" where
  "get_unobserved separation fld theta =
     (case (targets fld, observing fld) of
        (Some targs, Some obs) \<Rightarrow>
          let subtab = within_theta separation fld targs theta
          in if length subtab = 0 then Inr None
             else
               let tmsk = replicate (length subtab) True
               in (case get_observed separation fld theta (Some subtab) of
                     Inl e \<Rightarrow> Inl e
                   | Inr None \<Rightarrow> Inl TypeError
                   | Inr (Some (obs_tab, odict)) \<Rightarrow>
                       Inr (Some (mask_select subtab
                         (unobserved_loop (map TARG_RA obs_tab) (enumerate 0 subtab) tmsk))))
      | _ \<Rightarrow> Inl ValueError)"

text \<open>A target counts as observed when it has a mask name for which
  \<open>get_mask_obsdate\<close> returns at least one date: the targets the loop of
  \<open>get_observed\<close> marks.\<close>

definition is_observed :: "field \<Rightarrow> target \<Rightarrow> bool" where
  "is_observed fld t =
     (case MASK_NAME t of
        None \<Rightarrow> False
      | Some m \<Rightarrow> (case get_mask_obsdate fld m of Inl e \<Rightarrow> False | Inr ds \<Rightarrow> ds \<noteq> []))"

subsection \<open>An example field\<close>

text \<open>Stand-ins for the two library functions on which the examples are evaluated: a
  flat-sky separation in arcminutes and a constant scale of 600 kpc per arcminute.\<close>

definition ex_separation :: "real \<times> real \<Rightarrow> real \<times> real \<Rightarrow> real" where
  "ex_separation a b = 60 * (\<bar>fst a - fst b\<bar> + \<bar>snd a - snd b\<bar>)"

definition ex_kpc_amin :: "real \<Rightarrow> real" where
  "ex_kpc_amin zz = 600"

definition ex_gal1 :: galaxy where
  "ex_gal1 = \<lparr>RA = 10.005, DEC = 20, Z = 0.501\<rparr>"

definition ex_gal2 :: galaxy where
  "ex_gal2 = \<lparr>RA = 10.001, DEC = 20, Z = 0.6\<rparr>"

definition ex_gal3 :: galaxy where
  "ex_gal3 = \<lparr>RA = 10.05, DEC = 20, Z = 0.5005\<rparr>"

definition ex_gal_field :: field where
  "ex_gal_field = \<lparr>name = ''J1000+2000'', coord = (10, 20),
                    galaxies = Some [ex_gal1, ex_gal2, ex_gal3],
                    targets = None, observing = None\<rparr>"

text \<open>A table with an entry at \<open>Z = -1\<close>, where \<open>1 + Z\<close> is zero.\<close>

definition ex_gal4 :: galaxy where
  "ex_gal4 = \<lparr>RA = 10.001, DEC = 20, Z = -1\<rparr>"

definition ex_gal_field_zero :: field where
  "ex_gal_field_zero = \<lparr>name = ''J1000+2000'', coord = (10, 20),
                         galaxies = Some [ex_gal4], targets = None, observing = None\<rparr>"

text \<open>Two target tables over one observing table. In the first, the targets
  \<open>ex_targA\<close> (on an observed mask) and \<open>ex_targB\<close> (on no mask) share their right
  ascension; in the second no two targets do.\<close>

definition ex_targA :: target where
  "ex_targA = \<lparr>TARG_RA = 10.01, TARG_DEC = 20, MASK_NAME = Some ''m1''\<rparr>"

definition ex_targB :: target where
  "ex_targB = \<lparr>TARG_RA = 10.01, TARG_DEC = 20.01, MASK_NAME = None\<rparr>"

definition ex_targC :: target where
  "ex_targC = \<lparr>TARG_RA = 10.02, TARG_DEC = 20, MASK_NAME = None\<rparr>"

definition ex_obs :: "obs_row list" where
  "ex_obs = [\<lparr>obs_MASK_NAME = ''m1'', DATE_OBS = Some ''2014-11-29''\<rparr>]"

definition ex_field_AB :: field where
  "ex_field_AB = \<lparr>name = ''J1000+2000'', coord = (10, 20), galaxies = None,
                   targets = Some [ex_targA, ex_targB], observing = Some ex_obs\<rparr>"

definition ex_field_AC :: field where
  "ex_field_AC = \<lparr>name = ''J1000+2000'', coord = (10, 20), galaxies = None,
                   targets = Some [ex_targA, ex_targC], observing = Some ex_obs\<rparr>"

section \<open>spec/continuum.py\<close>

subsection \<open>Python values and dicts\<close>

text \<open>
  The values a continuum dict and a JSON file hold. A dict is an association list with
  distinct keys, looked up with \<open>map_of\<close>; the order of the list is the model's and
  carries no meaning.
\<close>

datatype pyval =
    PNone
  | PFloat real
  | PStr string
  | PBool bool
  | PList "pyval list"
  | PDict "(string \<times> pyval) list"

type_synonym py_dict = "(string \<times> pyval) list"

definition dict_has :: "py_dict \<Rightarrow> string \<Rightarrow> bool" where
  "dict_has d k = (map_of d k \<noteq> None)"

text \<open>\<^verbatim>\<open>d[k]\<close> raises KeyError on a missing key.\<close>

definition dict_get :: "py_dict \<Rightarrow> string \<Rightarrow> py_error + pyval" where
  "dict_get d k = (case map_of d k of None \<Rightarrow> Inl KeyError | Some v \<Rightarrow> Inr v)"

text \<open>\<^verbatim>\<open>d.pop(k)\<close> for a key that is present.\<close>

definition dict_pop :: "py_dict \<Rightarrow> string \<Rightarrow> py_dict" where
  "dict_pop d k = filter (\<lambda>kv. fst kv \<noteq> k) d"

text \<open>\<^verbatim>\<open>d[k] = v\<close>.\<close>

definition dict_set :: "py_dict \<Rightarrow> string \<Rightarrow> pyval \<Rightarrow> py_dict" where
  "dict_set d k v = (if dict_has d k then map (\<lambda>kv. if fst kv = k then (k, v) else kv) d
                     else d @ [(k, v)])"

definition opt_float :: "real option \<Rightarrow> pyval" where
  "opt_float a = (case a of None \<Rightarrow> PNone | Some v \<Rightarrow> PFloat v)"

subsection \<open>init_conti_dict\<close>

text \<open>
  The arguments are floats, \<open>piv_wv2\<close> a float or \<open>None\<close>; \<open>igm\<close> and \<open>LL_flatten\<close> are
  stored as they come (the defaults are the strings \<^verbatim>\<open>'None'\<close> and \<^verbatim>\<open>'True'\<close>). The
  comparison \<^verbatim>\<open>piv_wv2 > piv_wv\<close> is evaluated also when \<open>piv_wv2\<close> is \<open>None\<close>, where
  Python 2 answers \<open>False\<close>.
\<close>

definition init_conti_dict ::
  "real \<Rightarrow> real \<Rightarrow> real \<Rightarrow> real \<Rightarrow> real option \<Rightarrow> pyval \<Rightarrow> real \<Rightarrow> pyval \<Rightarrow> py_error + py_dict" where
  "init_conti_dict Norm tilt tilt2 piv_wv piv_wv2 igm fN_gamma LL_flatten =
     (let conti_dict = [(''Norm'', PFloat Norm), (''tilt'', PFloat tilt),
                        (''piv_wv'', PFloat piv_wv), (''piv_wv2'', opt_float piv_wv2),
                        (''tilt2'', PFloat tilt2), (''igm'', igm),
                        (''fN_gamma'', PFloat fN_gamma), (''LL_flatten'', LL_flatten)];
          conti_dict = (if piv_wv2 = None then dict_pop conti_dict ''piv_wv2'' else conti_dict)
      in if py2_gt piv_wv2 piv_wv then Inl ValueError else Inr conti_dict)"

subsection \<open>get_telfer_spec\<close>

text \<open>
  An \<open>XSpectrum1D\<close>: wavelengths, fluxes and their errors; \<open>from_tuple\<close> on a pair builds
  one without an error array and without a file name.
\<close>

record spectrum =
  dispersion :: "real list"
  flux :: "real list"
  sig :: "real list"
  filename :: string

definition from_tuple :: "real list \<times> real list \<Rightarrow> spectrum" where
  "from_tuple tup = \<lparr>dispersion = fst tup, flux = snd tup, sig = [], filename = ''''\<rparr>"

text \<open>\<^verbatim>\<open>a[idx] *= v\<close> and \<^verbatim>\<open>a[idx] = c\<close> for an index array within range.\<close>

definition mul_at :: "real list \<Rightarrow> nat list \<Rightarrow> real list \<Rightarrow> real list" where
  "mul_at xs idx vs = fold (\<lambda>iv ys. ys[fst iv := ys ! fst iv * snd iv]) (zip idx vs) xs"

text \<open>
  The table \<^verbatim>\<open>telfer_hst_comp01_rq.ascii\<close> is not part of the sources: \<open>telfer\<close> is its
  rows, each a pair of the columns \<open>wrest\<close> and \<open>flux\<close>. \<open>map_etl ilambda zem gamma\<close> is
  \<^verbatim>\<open>xastropy.igm.tau_eff.map_etl\<close> on the default f(N) model with \<open>gamma\<close> overridden when
  \<open>fN_gamma\<close> is given, and \<open>median\<close> is numpy's \<^verbatim>\<open>np.median\<close>; a worker pool maps
  \<open>map_etl\<close> over the wavelengths. \<^verbatim>\<open>scale[0]\<close> raises IndexError when no row has
  \<open>wrest = 1450\<close>.
\<close>

definition get_telfer_spec ::
  "(real \<times> real) list \<Rightarrow> (real \<Rightarrow> real \<Rightarrow> real option \<Rightarrow> real) \<Rightarrow> (real list \<Rightarrow> real)
     \<Rightarrow> real \<Rightarrow> bool \<Rightarrow> real option \<Rightarrow> bool \<Rightarrow> py_error + spectrum" where
  "get_telfer_spec telfer map_etl median zqso igm fN_gamma LL_flatten =
     (let scale = mask_select (map snd telfer) (map (\<lambda>r. fst r = 1450) telfer)
      in case scale of
           [] \<Rightarrow> Inl IndexError
         | scale0 # _ \<Rightarrow>
             let telfer_spec = from_tuple (map (\<lambda>r. fst r * (1 + zqso)) telfer,
                                           map (\<lambda>r. snd r / scale0) telfer)
             in if igm then
                  let igm_wv = np_where (map (\<lambda>r. fst r < 1220) telfer);
                      adict = map (\<lambda>wrest. (wrest, zqso, fN_gamma))
                                (rows_at (dispersion telfer_spec) igm_wv);
                      ateff = map (\<lambda>(ilambda, zem, gam). map_etl ilambda zem gam) adict;
                      flux1 = mul_at (flux telfer_spec) igm_wv (map (\<lambda>t. exp (-1 * t)) ateff)
                  in if LL_flatten then
                       let wv_LL = np_where (map (\<lambda>d. \<bar>d / (1 + zqso) - 914\<bar> < 3)
                                      (dispersion telfer_spec));
                           f_LL = median (rows_at flux1 wv_LL);
                           wv_low = np_where (map (\<lambda>d. d / (1 + zqso) < 911.7)
                                       (dispersion telfer_spec))
                       in Inr (telfer_spec\<lparr>flux := set_at flux1 wv_low f_LL\<rparr>)
                     else Inr (telfer_spec\<lparr>flux := flux1\<rparr>)
                else Inr telfer_spec)"

text \<open>A three-row stand-in for the Telfer table.\<close>

definition ex_telfer :: "(real \<times> real) list" where
  "ex_telfer = [(1000, 3), (1450, 2), (2000, 1)]"

section \<open>xguis/xfitllsgui.py: XFitLLSGUI\<close>

subsection \<open>More numpy\<close>

text \<open>
  An elementwise binary operation on two arrays: equal lengths, or one of them of
  length one (broadcast); anything else raises ValueError.
\<close>

definition np_bin :: "('a \<Rightarrow> 'b \<Rightarrow> 'c) \<Rightarrow> 'a list \<Rightarrow> 'b list \<Rightarrow> py_error + 'c list" where
  "np_bin f xs ys =
     (if length xs = length ys then Inr (map2 f xs ys)
      else if length xs = 1 then Inr (map (f (hd xs)) ys)
      else if length ys = 1 then Inr (map (\<lambda>x. f x (hd ys)) xs)
      else Inl ValueError)"

text \<open>\<^verbatim>\<open>a += b\<close>: \<open>b\<close> has the length of \<open>a\<close> or length one.\<close>

definition np_iadd :: "real list \<Rightarrow> real list \<Rightarrow> py_error + real list" where
  "np_iadd xs ys =
     (if length xs = length ys then Inr (map2 (+) xs ys)
      else if length ys = 1 then Inr (map (\<lambda>x. x + hd ys) xs)
      else Inl ValueError)"

text \<open>\<^verbatim>\<open>a[mask]\<close> and \<^verbatim>\<open>a[mask] = v\<close> for a boolean array: the mask must be as long as
  the array (IndexError), the values as many as the mask selects, or one (ValueError).\<close>

definition np_mask_get :: "'a list \<Rightarrow> bool list \<Rightarrow> py_error + 'a list" where
  "np_mask_get xs m = (if length m = length xs then Inr (mask_select xs m) else Inl IndexError)"

fun mask_assign :: "'a list \<Rightarrow> bool list \<Rightarrow> 'a list \<Rightarrow> 'a list" where
  "mask_assign (x # xs) (True # ms) (v # vs) = v # mask_assign xs ms vs"
| "mask_assign (x # xs) (False # ms) vs = x # mask_assign xs ms vs"
| "mask_assign xs ms vs = xs"

definition np_mask_set :: "'a list \<Rightarrow> bool list \<Rightarrow> 'a list \<Rightarrow> py_error + 'a list" where
  "np_mask_set xs m vs =
     (if length m \<noteq> length xs then Inl IndexError
      else if length vs = length (filter id m) then Inr (mask_assign xs m vs)
      else if length vs = 1 then Inr (mask_assign xs m (replicate (length (filter id m)) (hd vs)))
      else Inl ValueError)"

text \<open>\<^verbatim>\<open>a[idx]\<close> for an integer index array: an index \<open>j\<close> with \<open>-n \<le> j < n\<close> reads
  \<open>a[j mod n]\<close>, any other raises IndexError.\<close>

definition np_take :: "'a list \<Rightarrow> int list \<Rightarrow> py_error + 'a list" where
  "np_take xs idx =
     (let n = int (length xs)
      in if \<forall>j \<in> set idx. - n \<le> j \<and> j < n
         then Inr (map (\<lambda>j. xs ! nat (if j < 0 then n + j else j)) idx)
         else Inl IndexError)"

text \<open>\<^verbatim>\<open>np.argmin\<close>: the first index of the least element; ValueError on an empty array.\<close>

definition np_argmin :: "real list \<Rightarrow> py_error + nat" where
  "np_argmin xs =
     (if xs = [] then Inl ValueError
      else Inr (length (takeWhile (\<lambda>v. v \<noteq> Min (set xs)) xs)))"

text \<open>\<^verbatim>\<open>np.roll(a, k)\<close> for \<open>k \<ge> 0\<close>: the element at \<open>i\<close> moves to \<open>(i + k) mod n\<close>.\<close>

definition np_roll :: "'a list \<Rightarrow> nat \<Rightarrow> 'a list" where
  "np_roll xs k =
     (let n = length xs
      in if n = 0 then xs else drop (n - k mod n) xs @ take (n - k mod n) xs)"

text \<open>\<^verbatim>\<open>np.diff\<close>.\<close>

definition np_diff :: "real list \<Rightarrow> real list" where
  "np_diff xs = map2 (\<lambda>a b. b - a) xs (tl xs)"

subsection \<open>Strings\<close>

text \<open>\<^verbatim>\<open>'{:d}'.format(n)\<close> for \<open>n \<ge> 0\<close>.\<close>

definition digit_char :: "nat \<Rightarrow> char" where
  "digit_char d = char_of (48 + d)"

fun show_nat :: "nat \<Rightarrow> string" where
  "show_nat n = (if n < 10 then [digit_char n] else show_nat (n div 10) @ [digit_char (n mod 10)])"

declare show_nat.simps [simp del]

text \<open>\<^verbatim>\<open>s.strip()\<close>: leading and trailing whitespace removed.\<close>

definition py_isspace :: "char \<Rightarrow> bool" where
  "py_isspace c = (c \<in> set [CHR '' '', CHR 0x09, CHR 0x0A, CHR 0x0B, CHR 0x0C, CHR 0x0D])"

definition py_strip :: "string \<Rightarrow> string" where
  "py_strip s = rev (dropWhile py_isspace (rev (dropWhile py_isspace s)))"

subsection \<open>The state of the GUI\<close>

text \<open>An absorption line of a system carries the attributes \<open>z\<close>, \<open>N\<close> and \<open>b\<close>.\<close>

record abs_line =
  wrest :: real
  attrib_z :: real
  attrib_N :: real
  attrib_b :: real

text \<open>An \<open>LLSSystem\<close> with the attributes the GUI adds (\<open>bval\<close>, \<open>comment\<close>, \<open>label\<close>).\<close>

record lls_system =
  zabs :: real
  NHI :: real
  bval :: real
  comment :: string
  label :: string
  lls_lines :: "abs_line list"

text \<open>A forest system of \<open>add_forest\<close>: its redshift, its \<open>NHI\<close> and its lines.\<close>

record forest =
  forest_zabs :: real
  forest_NHI :: real
  lines :: "abs_line list"

text \<open>
  The functions of numpy, linetools and pyigm that the GUI calls.
  \<^item> \<open>np_power a b\<close> is \<^verbatim>\<open>a ** b\<close>; \<open>np_log\<close>, \<open>np_log10\<close>, \<open>np_arange\<close>, \<open>np_interp\<close>,
    \<open>np_median\<close> are numpy's.
  \<^item> \<open>tau_multi_lls wave systems skip_wveval\<close> and \<open>voigt_from_abslines wave lines
    skip_wveval\<close> (with \<^verbatim>\<open>ret='tau'\<close>) give optical depths on \<open>wave\<close>;
    \<open>convolve_psf\<close> smooths.
  \<^item> \<open>fill_lls_lines z NHI bval\<close> is the line list \<^verbatim>\<open>LLSSystem.fill_lls_lines\<close> builds.
  \<^item> \<open>dict_keys ks\<close> is the order in which a Python 2 dict with the keys \<open>ks\<close> hands
    them out.
\<close>

record ext =
  np_power :: "real \<Rightarrow> real \<Rightarrow> real"
  np_log :: "real \<Rightarrow> real"
  np_log10 :: "real \<Rightarrow> real"
  np_arange :: "real \<Rightarrow> real \<Rightarrow> real \<Rightarrow> real list"
  np_interp :: "real list \<Rightarrow> real list \<Rightarrow> real list \<Rightarrow> real list"
  np_median :: "real list \<Rightarrow> real"
  tau_multi_lls :: "real list \<Rightarrow> lls_system list \<Rightarrow> bool \<Rightarrow> real list"
  voigt_from_abslines :: "real list \<Rightarrow> abs_line list \<Rightarrow> bool \<Rightarrow> real list"
  convolve_psf :: "real list \<Rightarrow> real \<Rightarrow> real list"
  fill_lls_lines :: "real \<Rightarrow> real \<Rightarrow> real \<Rightarrow> abs_line list"
  dict_keys :: "string list \<Rightarrow> string list"

text \<open>
  The attributes of \<open>XFitLLSGUI\<close> that the modelled methods read or write.
  \<open>all_abssys\<close> is \<^verbatim>\<open>self.abssys_widg.all_abssys\<close> and \<open>spec\<close> is
  \<^verbatim>\<open>self.spec_widg.spec\<close>. \<^verbatim>\<open>self.spec_widg.model\<close> is only ever \<open>None\<close> or the very
  object \<open>self.full_model\<close>: \<open>model_shown\<close> tells which. \<open>printed\<close> collects what
  \<^verbatim>\<open>print\<close> writes. An attribute that \<^verbatim>\<open>__init__\<close> has not assigned yet holds an
  arbitrary value. The Qt widgets are not modelled.
\<close>

record gui =
  outfil :: string
  count_lls :: nat
  lls_model :: "real list option"
  smooth :: "real option"
  base_continuum :: "real list option"
  all_forest :: "forest list"
  flag_write :: bool
  dw :: real
  skip_wveval :: bool
  conti_dict :: pyval
  continuum :: spectrum
  full_model :: spectrum
  zqso :: "real option"
  all_abssys :: "lls_system list"
  spec :: spectrum
  model_shown :: bool
  bad_model :: "nat list"
  printed :: "string list"

subsection \<open>update_conti\<close>

text \<open>\<^verbatim>\<open>self.conti_dict[k]\<close> used as a number.\<close>

definition conti_get :: "pyval \<Rightarrow> string \<Rightarrow> py_error + real" where
  "conti_get cd k =
     (case cd of
        PDict d \<Rightarrow> (case dict_get d k of
                      Inl e \<Rightarrow> Inl e
                    | Inr (PFloat v) \<Rightarrow> Inr v
                    | Inr _ \<Rightarrow> Inl TypeError)
      | _ \<Rightarrow> Inl TypeError)"

definition conti_has :: "pyval \<Rightarrow> string \<Rightarrow> py_error + bool" where
  "conti_has cd k = (case cd of PDict d \<Rightarrow> Inr (dict_has d k) | _ \<Rightarrow> Inl AttributeError)"

text \<open>The last statement of \<open>update_conti\<close>.\<close>

definition refresh_full_model :: "gui \<Rightarrow> py_error + gui" where
  "refresh_full_model g =
     (case lls_model g of
        None \<Rightarrow> Inr g
      | Some m \<Rightarrow>
          ebind (np_bin (*) m (flux (continuum g)))
            (\<lambda>fm. Inr (g\<lparr>full_model := (full_model g)\<lparr>flux := fm\<rparr>\<rparr>)))"

definition update_conti :: "ext \<Rightarrow> gui \<Rightarrow> py_error + gui" where
  "update_conti X g =
     (case base_continuum g of
        None \<Rightarrow> Inl TypeError
      | Some base \<Rightarrow>
          ebind (conti_get (conti_dict g) ''Norm'') (\<lambda>Norm.
          let cflux = map (\<lambda>b. b * Norm) base;
              wave = dispersion (continuum g)
          in ebind (conti_has (conti_dict g) ''piv_wv2'') (\<lambda>double_tilt.
             if double_tilt then
               ebind (conti_get (conti_dict g) ''piv_wv2'') (\<lambda>piv_wv2.
               let lowwv = map (\<lambda>w. w < piv_wv2) wave
               in ebind (np_mask_get cflux lowwv) (\<lambda>cflux_low.
                  ebind (np_mask_get wave lowwv) (\<lambda>wave_low.
                  ebind (conti_get (conti_dict g) ''tilt2'') (\<lambda>tilt2.
                  ebind (np_bin (*) cflux_low
                           (map (\<lambda>w. np_power X (w / piv_wv2) tilt2) wave_low)) (\<lambda>low.
                  ebind (np_mask_set (flux (continuum g)) lowwv low) (\<lambda>flux1.
                  ebind (np_mask_get cflux (map Not lowwv)) (\<lambda>cflux_high.
                  ebind (np_mask_get wave (map Not lowwv)) (\<lambda>wave_high.
                  ebind (conti_get (conti_dict g) ''piv_wv'') (\<lambda>piv_wv.
                  ebind (conti_get (conti_dict g) ''tilt'') (\<lambda>tilt.
                  ebind (np_bin (*) cflux_high
                           (map (\<lambda>w. np_power X (w / piv_wv) tilt) wave_high)) (\<lambda>high.
                  ebind (np_mask_set flux1 (map Not lowwv) high) (\<lambda>flux2.
                  refresh_full_model (g\<lparr>continuum := (continuum g)\<lparr>flux := flux2\<rparr>\<rparr>)))))))))))))
             else
               ebind (conti_get (conti_dict g) ''piv_wv'') (\<lambda>piv_wv.
               ebind (conti_get (conti_dict g) ''tilt'') (\<lambda>tilt.
               ebind (np_bin (*) cflux (map (\<lambda>w. np_power X (w / piv_wv) tilt) wave)) (\<lambda>flux1.
               refresh_full_model (g\<lparr>continuum := (continuum g)\<lparr>flux := flux1\<rparr>\<rparr>)))))))"

subsection \<open>update_model\<close>

text \<open>The wavelengths \<open>wa1\<close> on which the optical depth is evaluated. \<^verbatim>\<open>wa[0]\<close> raises
  IndexError on an empty array, and \<^verbatim>\<open>np.arange\<close> raises on a step of zero
  (ZeroDivisionError on Python floats; numpy floats make it a ValueError): in either
  case \<open>update_model\<close> does not return.\<close>

definition model_grid :: "ext \<Rightarrow> gui \<Rightarrow> py_error + real list" where
  "model_grid X g =
     (let wa = dispersion (full_model g)
      in if \<not> skip_wveval g then
           (if wa = [] then Inl IndexError
            else if dw g = 0 then Inl ZeroDivisionError
            else Inr (np_arange X (hd wa) (last wa) (dw g)))
         else Inr wa)"

text \<open>The loop over \<open>all_forest\<close>, adding each forest system's optical depth in place.\<close>

fun forest_loop :: "ext \<Rightarrow> bool \<Rightarrow> real list \<Rightarrow> forest list \<Rightarrow> real list \<Rightarrow> py_error + real list" where
  "forest_loop X skip wa1 [] all_tau_model = Inr all_tau_model"
| "forest_loop X skip wa1 (fst_sys # rest) all_tau_model =
     ebind (np_iadd all_tau_model (voigt_from_abslines X wa1 (lines fst_sys) skip))
       (forest_loop X skip wa1 rest)"

text \<open>\<open>all_tau_model\<close> as it stands after the loop, and the flux before smoothing.\<close>

definition all_tau_model :: "ext \<Rightarrow> gui \<Rightarrow> real list \<Rightarrow> py_error + real list" where
  "all_tau_model X g wa1 =
     forest_loop X (skip_wveval g) wa1 (all_forest g)
       (tau_multi_lls X wa1 (all_abssys g) (skip_wveval g))"

definition unsmoothed_flux :: "real list \<Rightarrow> real list" where
  "unsmoothed_flux tau = map (\<lambda>t. exp (-1 * t)) tau"

text \<open>Smoothing and interpolation back onto the spectrum's wavelengths.\<close>

definition smooth_flux :: "ext \<Rightarrow> gui \<Rightarrow> real list \<Rightarrow> real list \<Rightarrow> real list" where
  "smooth_flux X g wa1 flux0 =
     (let wa = dispersion (full_model g);
          flux1 = (if py2_gt (smooth g) 0 then
                     (if \<not> skip_wveval g then
                        (let mult = np_median X (np_diff wa) / dw g
                         in convolve_psf X flux0 (the (smooth g) * mult))
                      else convolve_psf X flux0 (the (smooth g)))
                   else flux0)
      in if \<not> skip_wveval g then np_interp X wa wa1 flux1 else flux1)"

text \<open>The pixels where the model lies more than 1.5 sigma below the data although
  the absorption model is below 0.7.\<close>

definition over_absorbed :: "real list \<Rightarrow> real list \<Rightarrow> spectrum \<Rightarrow> py_error + nat list" where
  "over_absorbed lls fm sp =
     ebind (np_bin (-) (flux sp) (map (\<lambda>s. s * 1.5) (sig sp))) (\<lambda>thr.
     ebind (np_bin (<) fm thr) (\<lambda>below.
     ebind (np_bin (\<and>) (map (\<lambda>v. v < 0.7) lls) below) (\<lambda>both.
     Inr (np_where both))))"

definition update_model :: "ext \<Rightarrow> gui \<Rightarrow> py_error + gui" where
  "update_model X g =
     (if length (all_abssys g) = 0 then Inr (g\<lparr>lls_model := None, model_shown := False\<rparr>)
      else
        ebind (model_grid X g) (\<lambda>wa1.
        ebind (all_tau_model X g wa1) (\<lambda>tau.
        let lls = smooth_flux X g wa1 (unsmoothed_flux tau)
        in ebind (np_bin (*) lls (flux (continuum g))) (\<lambda>fm.
           ebind (over_absorbed lls fm (spec g)) (\<lambda>bad.
           Inr (g\<lparr>lls_model := Some lls,
                  full_model := (full_model g)\<lparr>flux := fm\<rparr>,
                  bad_model := bad,
                  model_shown := True\<rparr>))))))"

subsection \<open>add_LLS\<close>

definition new_lls :: "ext \<Rightarrow> real \<Rightarrow> real \<Rightarrow> real \<Rightarrow> string \<Rightarrow> nat \<Rightarrow> lls_system" where
  "new_lls X z nhi b cmt cnt =
     \<lparr>zabs = z, NHI = nhi, bval = b, comment = cmt,
      label = ''LLS_Sys_'' @ show_nat cnt, lls_lines = fill_lls_lines X z nhi b\<rparr>"

definition add_LLS :: "ext \<Rightarrow> gui \<Rightarrow> real \<Rightarrow> real \<Rightarrow> real \<Rightarrow> string \<Rightarrow> bool \<Rightarrow> py_error + gui" where
  "add_LLS X g z nhi b cmt model =
     (let new_sys = new_lls X z nhi b cmt (count_lls g + 1);
          g1 = g\<lparr>count_lls := count_lls g + 1, all_abssys := all_abssys g @ [new_sys]\<rparr>
      in if model then update_model X g1 else Inr g1)"

subsection \<open>auto_plls\<close>

text \<open>\<^verbatim>\<open>a[i]\<close> for one index \<open>i \<ge> 0\<close>.\<close>

definition np_index :: "'a list \<Rightarrow> nat \<Rightarrow> py_error + 'a" where
  "np_index xs i = (if i < length xs then Inr (xs ! i) else Inl IndexError)"

text \<open>The model the data are compared with: the full model once a system exists.\<close>

definition plls_conti :: "gui \<Rightarrow> spectrum" where
  "plls_conti g = (if length (all_abssys g) > 0 then full_model g else continuum g)"

text \<open>The toy system made from the click; \<open>comment\<close> and \<open>label\<close> are never assigned.\<close>

definition toy_plls :: "ext \<Rightarrow> real \<Rightarrow> real \<Rightarrow> lls_system" where
  "toy_plls X z nhi =
     \<lparr>zabs = z, NHI = nhi, bval = 20, comment = '''', label = '''',
      lls_lines = fill_lls_lines X z nhi 20\<rparr>"

text \<open>\<open>zmin\<close>: below the next system of higher redshift, or above the quasar.
  \<^verbatim>\<open>self.zqso + 0.01\<close> raises TypeError when \<open>zqso\<close> is \<open>None\<close>.\<close>

definition plls_zmin :: "gui \<Rightarrow> real \<Rightarrow> py_error + real" where
  "plls_zmin g plls_zabs =
     (if length (all_abssys g) \<noteq> 0 then
        (let zlls = map zabs (filter (\<lambda>lls. zabs lls > plls_zabs) (all_abssys g))
         in if length zlls = 0 then
              (case zqso g of None \<Rightarrow> Inl TypeError | Some q \<Rightarrow> Inr (q + 0.01))
            else Inr (Min (set zlls) - 0.01))
      else (case zqso g of None \<Rightarrow> Inl TypeError | Some q \<Rightarrow> Inr (q + 0.01)))"

text \<open>
  The matrices have one column per offset \<open>kk\<close> and are lists of columns. Assigning an
  array to a column needs the column's length, or length one. The boolean mask is
  stored in a float matrix and read back with \<^verbatim>\<open>== True\<close>: kept boolean here. \<open>bad\<close> is
  the sum of \<open>bad_matrix\<close> over each column (axis 0).
\<close>

definition fits_column :: "nat \<Rightarrow> 'a list \<Rightarrow> bool" where
  "fits_column n v = (length v = n \<or> length v = 1)"

definition as_column :: "nat \<Rightarrow> 'a list \<Rightarrow> 'a list" where
  "as_column n v = (if length v = n then v else replicate n (hd v))"

definition plls_bad ::
  "real list \<Rightarrow> real list \<Rightarrow> real list \<Rightarrow> real list \<Rightarrow> nat \<Rightarrow> py_error + real list" where
  "plls_bad roll_flux flux_pad sig_pad conti_pad nroll =
     (let n = length roll_flux;
          roll_msk = map (\<lambda>f. f < 0.7) roll_flux
      in if nroll > 0 \<and> \<not> (fits_column n flux_pad \<and> fits_column n conti_pad
                              \<and> fits_column n sig_pad)
         then Inl ValueError
         else
           let roll_matrix = map (\<lambda>kk. np_roll roll_flux kk) [0..<nroll];
               mask_matrix = map (\<lambda>kk. np_roll roll_msk kk) [0..<nroll];
               flux_matrix = replicate nroll (as_column n flux_pad);
               conti_matrix = replicate nroll (as_column n conti_pad);
               sig_matrix = replicate nroll (as_column n sig_pad);
               model = map2 (map2 (*)) roll_matrix conti_matrix;
               cond = map2 (map2 (\<and>))
                        (map2 (map2 (<)) model
                           (map2 (map2 (-)) flux_matrix (map (map (\<lambda>s. s * 1.5)) sig_matrix)))
                        mask_matrix;
               bad_matrix = map (map (\<lambda>c. if c then 1 else 0)) cond;
               bad = map sum_list bad_matrix
           in Inr bad)"

text \<open>First part of \<open>auto_plls\<close>: the pixel under the cursor, the column density
  guessed from the flux there, the toy system at \<open>z = x / 911.7 - 1\<close> and its smoothed
  absorption template \<open>lls_flux\<close> on the wavelengths of the spectrum.\<close>

definition plls_click ::
  "ext \<Rightarrow> gui \<Rightarrow> real \<Rightarrow> real \<Rightarrow> py_error + nat \<times> real \<times> lls_system \<times> real list" where
  "plls_click X g x y =
     (let wave = dispersion (spec g);
          conti = plls_conti g
      in ebind (np_argmin (map (\<lambda>w. \<bar>w - x\<bar>) wave)) (\<lambda>ximn.
         ebind (np_index (flux conti) ximn) (\<lambda>c.
         let nhi = 17.29 + np_log10 X (-1 * np_log X (y / c));
             z = x / 911.7 - 1;
             plls = toy_plls X z nhi;
             tau = tau_multi_lls X wave [plls] False;
             emtau = map (\<lambda>t. exp (-1 * t)) tau;
             lls_flux = convolve_psf X emtau 3
         in Inr (ximn, nhi, plls, lls_flux))))"

text \<open>The pixels for analysis \<open>apix\<close> and the number of offsets \<open>nroll\<close>.
  \<^verbatim>\<open>np.max\<close> of an empty \<open>apix\<close> raises ValueError.\<close>

definition plls_window :: "real list \<Rightarrow> real \<Rightarrow> real \<Rightarrow> py_error + nat list \<times> int" where
  "plls_window wave plls_zabs zmin =
     (let wrest = map (\<lambda>w. w / (1 + plls_zabs)) wave;
          apix = np_where (map2 (\<lambda>wr w. wr > 914 \<and> w < (1 + zmin) * 1026) wrest wave)
      in ebind (np_argmin (map (\<lambda>w. \<bar>w - 911.7 * (1 + zmin)\<bar>) wave)) (\<lambda>i1.
         ebind (np_argmin (map (\<lambda>w. \<bar>w - 911.7 * (1 + plls_zabs)\<bar>) wave)) (\<lambda>i2.
         let nroll = int i1 - int i2
         in if apix = [] then Inl ValueError
            else if int (Max (set apix)) + nroll > int (length wave)
            then Inr (apix, int (length wave) - int (Max (set apix)) - 1)
            else Inr (apix, nroll))))"

text \<open>The padded template \<open>roll_flux\<close> and the data on the pixels \<open>gdpix\<close>.
  \<^verbatim>\<open>np.ones(nroll)\<close> raises ValueError for a negative \<open>nroll\<close>.\<close>

definition plls_pads ::
  "gui \<Rightarrow> real list \<Rightarrow> nat list \<Rightarrow> int
     \<Rightarrow> py_error + real list \<times> real list \<times> real list \<times> real list" where
  "plls_pads g lls_flux apix nroll =
     (let gdpix = [int (Min (set apix)) - nroll .. int (Max (set apix)) + nroll]
      in if nroll < 0 then Inl ValueError
         else
           ebind (np_take lls_flux (map int apix)) (\<lambda>template.
           let roll_flux = replicate (nat nroll) 1 @ template @ replicate (nat nroll) 1
           in ebind (np_take (dispersion (spec g)) gdpix) (\<lambda>wave_pad.
              ebind (np_take (flux (spec g)) gdpix) (\<lambda>flux_pad.
              ebind (np_take (sig (spec g)) gdpix) (\<lambda>sig_pad.
              ebind (np_take (flux (plls_conti g)) gdpix) (\<lambda>conti_pad.
              Inr (roll_flux, flux_pad, sig_pad, conti_pad)))))))"

definition no_plls_message :: string where
  "no_plls_message = ''No viable pLLS found with our criteria!''"

text \<open>The best offset, its redshift, and the decision.\<close>

definition plls_decide :: "ext \<Rightarrow> gui \<Rightarrow> nat \<Rightarrow> real \<Rightarrow> real list \<Rightarrow> py_error + gui" where
  "plls_decide X g ximn nhi bad =
     ebind (np_argmin bad) (\<lambda>ibest.
     ebind (np_index (dispersion (spec g)) (ibest + ximn)) (\<lambda>wbest.
     let zbest = wbest / 911.7 - 1
     in if bad ! ibest < 10
        then add_LLS X g zbest nhi 20 ''None'' True
        else Inr (g\<lparr>printed := printed g @ [no_plls_message]\<rparr>)))"

definition auto_plls :: "ext \<Rightarrow> gui \<Rightarrow> real \<Rightarrow> real \<Rightarrow> py_error + gui" where
  "auto_plls X g x y =
     ebind (plls_click X g x y) (\<lambda>(ximn, nhi, plls, lls_flux).
     ebind (plls_zmin g (zabs plls)) (\<lambda>zmin.
     ebind (plls_window (dispersion (spec g)) (zabs plls) zmin) (\<lambda>(apix, nroll).
     ebind (plls_pads g lls_flux apix nroll) (\<lambda>(roll_flux, flux_pad, sig_pad, conti_pad).
     ebind (plls_bad roll_flux flux_pad sig_pad conti_pad (nat nroll)) (\<lambda>bad.
     plls_decide X g ximn nhi bad)))))"

subsection \<open>write_out and init_LLS\<close>

text \<open>
  The file written by \<open>write_out\<close> and read by \<open>init_LLS\<close> is modelled by the value
  that \<^verbatim>\<open>json.dumps\<close> receives and \<^verbatim>\<open>json.load\<close> returns: the \<^verbatim>\<open>json\<close> module is
  taken to hand back the dicts, lists, strings, numbers and \<open>None\<close> it was given.
  Strings are ASCII.
\<close>

definition lls_entry :: "lls_system \<Rightarrow> abs_line \<Rightarrow> pyval" where
  "lls_entry lls line0 =
     PDict [(''z'', PFloat (zabs lls)), (''NHI'', PFloat (NHI lls)),
            (''bval'', PFloat (attrib_b line0)), (''comment'', PStr (py_strip (comment lls)))]"

text \<open>The loop of \<open>write_out\<close> over \<^verbatim>\<open>enumerate(all_abssys)\<close>;
  \<^verbatim>\<open>lls.lls_lines[0]\<close> raises IndexError on a system without lines.\<close>

fun write_lls_loop :: "(nat \<times> lls_system) list \<Rightarrow> py_dict \<Rightarrow> py_error + py_dict" where
  "write_lls_loop [] d = Inr d"
| "write_lls_loop ((kk, lls) # rest) d =
     (let key = show_nat (kk + 1)
      in case lls_lines lls of
           [] \<Rightarrow> Inl IndexError
         | line0 # _ \<Rightarrow> write_lls_loop rest (dict_set d key (lls_entry lls line0)))"

text \<open>\<open>write_out\<close> returns the new state and the document written to \<open>outfil\<close>.
  \<^verbatim>\<open>self.base_continuum.value\<close> raises AttributeError on \<open>None\<close>.\<close>

definition write_out :: "gui \<Rightarrow> py_error + gui \<times> pyval" where
  "write_out g =
     (case base_continuum g of
        None \<Rightarrow> Inl AttributeError
      | Some base \<Rightarrow>
          let out_dict = [(''LLS'', PDict []), (''conti_model'', conti_dict g),
                          (''conti'', PList (map PFloat base)),
                          (''spec_file'', PStr (filename (spec g))),
                          (''smooth'', opt_float (smooth g))];
              out_dict = (case zqso g of
                            None \<Rightarrow> out_dict
                          | Some q \<Rightarrow> dict_set out_dict ''zqso'' (PFloat q))
          in ebind (write_lls_loop (enumerate 0 (all_abssys g)) []) (\<lambda>lls_dict.
             Inr (g\<lparr>flag_write := True\<rparr>, PDict (dict_set out_dict ''LLS'' (PDict lls_dict)))))"

text \<open>\<^verbatim>\<open>Quantity(v)\<close> inside the bare \<^verbatim>\<open>try\<close>: a list of numbers gives an array, a single
  number a scalar (kept as a one-element array); anything else, or a missing key,
  raises and is caught.\<close>

fun float_list :: "pyval list \<Rightarrow> real list option" where
  "float_list [] = Some []"
| "float_list (PFloat v # rest) = map_option (\<lambda>vs. v # vs) (float_list rest)"
| "float_list (_ # rest) = None"

definition quantity :: "pyval option \<Rightarrow> real list option" where
  "quantity v =
     (case v of
        Some (PList vs) \<Rightarrow> float_list vs
      | Some (PFloat x) \<Rightarrow> Some [x]
      | _ \<Rightarrow> None)"

text \<open>A value read from the file and used as a number, as a number or \<open>None\<close>, or as a
  string. The GUI keeps whatever the file holds; a value of another kind is outside the
  model and TypeError stands for it.\<close>

definition as_float :: "pyval \<Rightarrow> py_error + real" where
  "as_float v = (case v of PFloat x \<Rightarrow> Inr x | _ \<Rightarrow> Inl TypeError)"

definition as_opt_float :: "pyval \<Rightarrow> py_error + real option" where
  "as_opt_float v = (case v of PFloat x \<Rightarrow> Inr (Some x) | PNone \<Rightarrow> Inr None | _ \<Rightarrow> Inl TypeError)"

definition as_string :: "pyval \<Rightarrow> py_error + string" where
  "as_string v = (case v of PStr s \<Rightarrow> Inr s | _ \<Rightarrow> Inl TypeError)"

definition entry_get :: "pyval \<Rightarrow> string \<Rightarrow> py_error + pyval" where
  "entry_get e k = (case e of PDict d \<Rightarrow> dict_get d k | _ \<Rightarrow> Inl TypeError)"

text \<open>The loop of \<open>init_LLS\<close> over \<^verbatim>\<open>lls_dict['LLS'].keys()\<close>.\<close>

fun init_lls_loop :: "ext \<Rightarrow> py_dict \<Rightarrow> string list \<Rightarrow> gui \<Rightarrow> py_error + gui" where
  "init_lls_loop X lls [] g = Inr g"
| "init_lls_loop X lls (key # rest) g =
     ebind (dict_get lls key) (\<lambda>e.
     ebind (ebind (entry_get e ''z'') as_float) (\<lambda>z.
     ebind (ebind (entry_get e ''NHI'') as_float) (\<lambda>nhi.
     ebind (ebind (entry_get e ''bval'') as_float) (\<lambda>b.
     ebind (ebind (entry_get e ''comment'') as_string) (\<lambda>cmt.
     ebind (add_LLS X g z nhi b cmt False) (init_lls_loop X lls rest))))))"

definition new_base_message :: string where
  "new_base_message = ''Will generate a new base continuum''"

definition init_LLS :: "ext \<Rightarrow> gui \<Rightarrow> pyval \<Rightarrow> spectrum \<Rightarrow> py_error + gui" where
  "init_LLS X g doc sp =
     (case doc of
        PDict lls_dict \<Rightarrow>
          ebind (case dict_get lls_dict ''conti_model'' of
                   Inl e \<Rightarrow> ebind (dict_get lls_dict ''conti'') (\<lambda>c. Inr (g\<lparr>conti_dict := c\<rparr>))
                 | Inr cm \<Rightarrow>
                     (case quantity (map_of lls_dict ''conti'') of
                        None \<Rightarrow> Inr (g\<lparr>conti_dict := cm, base_continuum := None,
                                       printed := printed g @ [new_base_message]\<rparr>)
                      | Some base \<Rightarrow>
                          Inr (g\<lparr>conti_dict := cm, base_continuum := Some base,
                                 continuum := from_tuple
                                   (dispersion sp, replicate (length (dispersion sp)) 1)\<rparr>)))
            (\<lambda>g1.
          ebind (dict_get lls_dict ''spec_file'') (\<lambda>spec_file.
          ebind (dict_get lls_dict ''LLS'') (\<lambda>lls_val.
          ebind (case lls_val of
                   PDict lls \<Rightarrow> init_lls_loop X lls (dict_keys X (map fst lls)) g1
                 | _ \<Rightarrow> Inl AttributeError) (\<lambda>g2.
          ebind (ebind (dict_get lls_dict ''smooth'') as_opt_float) (\<lambda>sm.
          ebind (case dict_get lls_dict ''zqso'' of
                   Inl e \<Rightarrow> Inr None
                 | Inr q \<Rightarrow> as_opt_float q) (\<lambda>zq.
          Inr (g2\<lparr>smooth := sm, zqso := zq\<rparr>)))))))
      | _ \<Rightarrow> Inl TypeError)"

subsection \<open>Predicates of the statements\<close>

text \<open>The full model is the product of the absorption model and the continuum,
  whenever there is an absorption model.\<close>

definition full_model_inv :: "gui \<Rightarrow> bool" where
  "full_model_inv g =
     (case lls_model g of
        None \<Rightarrow> True
      | Some m \<Rightarrow> np_bin (*) m (flux (continuum g)) = Inr (flux (full_model g)))"

text \<open>The redshift, column density, Doppler parameter and comment of a system: as the
  GUI holds them, and as \<open>write_out\<close> writes them (the Doppler parameter of the first
  line, the comment stripped).\<close>

definition sys4 :: "lls_system \<Rightarrow> real \<times> real \<times> real \<times> string" where
  "sys4 s = (zabs s, NHI s, bval s, comment s)"

definition written4 :: "lls_system \<Rightarrow> real \<times> real \<times> real \<times> string" where
  "written4 s = (zabs s, NHI s, attrib_b (hd (lls_lines s)), py_strip (comment s))"

subsection \<open>An example session\<close>

text \<open>
  Stand-ins for the library functions, on which the examples are evaluated. The
  optical depth of a system is \<open>ln 4\<close> blueward of its Lyman limit and within 25
  Angstrom (rest frame) of 972.5 Angstrom, and zero elsewhere; a forest line absorbs
  with depth \<open>ln 2\<close> within 25 Angstrom of its observed wavelength. Nothing is smoothed
  or interpolated, powers are taken to whole exponents, and a dict hands out its keys
  in reverse.
\<close>

definition ex_tau :: "real list \<Rightarrow> lls_system list \<Rightarrow> bool \<Rightarrow> real list" where
  "ex_tau wave systems skip =
     map (\<lambda>w. if list_ex (\<lambda>s. w / (1 + zabs s) < 911.7 \<or> \<bar>w / (1 + zabs s) - 972.5\<bar> < 25) systems
              then ln 4 else 0) wave"

definition ex_voigt :: "real list \<Rightarrow> abs_line list \<Rightarrow> bool \<Rightarrow> real list" where
  "ex_voigt wave lns skip =
     map (\<lambda>w. if list_ex (\<lambda>l. \<bar>w - wrest l * (1 + attrib_z l)\<bar> < 25) lns then ln 2 else 0) wave"

definition ex_lines :: "real \<Rightarrow> real \<Rightarrow> real \<Rightarrow> abs_line list" where
  "ex_lines z nhi b = [\<lparr>wrest = 1215.67, attrib_z = z, attrib_N = 10 powr nhi, attrib_b = b\<rparr>]"

definition ex_X :: ext where
  "ex_X = \<lparr>np_power = (\<lambda>a b. a ^ nat \<lfloor>b\<rfloor>),
           np_log = ln,
           np_log10 = log 10,
           np_arange = (\<lambda>a b step. map (\<lambda>k. a + real k * step) [0..<nat \<lceil>(b - a) / step\<rceil>]),
           np_interp = (\<lambda>x xp fp. fp),
           np_median = (\<lambda>xs. sort xs ! (length xs div 2)),
           tau_multi_lls = ex_tau,
           voigt_from_abslines = ex_voigt,
           convolve_psf = (\<lambda>xs fwhm. xs),
           fill_lls_lines = ex_lines,
           dict_keys = rev\<rparr>"

definition ex_wave :: "real list" where
  "ex_wave = [1700, 1800, 1900, 2000, 2100, 2200, 2300, 2400]"

definition ex_spec :: spectrum where
  "ex_spec = \<lparr>dispersion = ex_wave,
              flux = [0.2, 0.2, 1, 0.3, 1, 1, 1, 1],
              sig = [0.1, 0.1, 0.1, 0.1, 0.1, 0.1, 0.1, 0.1],
              filename = ''q.fits''\<rparr>"

definition ex_ones :: spectrum where
  "ex_ones = from_tuple (ex_wave, [1, 1, 1, 1, 1, 1, 1, 1])"

text \<open>A session on an eight-pixel spectrum of a quasar at \<open>zqso = 1.15\<close>, before any
  system is added: unit continuum with \<open>Norm = 2\<close>, \<open>tilt = 1\<close> about 2000 Angstrom.\<close>

definition ex_gui :: gui where
  "ex_gui = \<lparr>outfil = ''LLS_fit.json'', count_lls = 0, lls_model = None, smooth = None,
             base_continuum = Some [1, 1, 1, 1, 1, 1, 1, 1], all_forest = [],
             flag_write = False, dw = 0.1, skip_wveval = True,
             conti_dict = PDict [(''Norm'', PFloat 2), (''tilt'', PFloat 1),
                                 (''piv_wv'', PFloat 2000), (''tilt2'', PFloat 0),
                                 (''igm'', PStr ''True''), (''fN_gamma'', PFloat (-1)),
                                 (''LL_flatten'', PStr ''True'')],
             continuum = ex_ones, full_model = ex_ones, zqso = Some 1.15, all_abssys = [],
             spec = ex_spec, model_shown = False, bad_model = [], printed = []\<rparr>"

text \<open>The same session with a second pivot at 1850 Angstrom.\<close>

definition ex_gui_tilt2 :: gui where
  "ex_gui_tilt2 =
     ex_gui\<lparr>conti_dict := PDict [(''Norm'', PFloat 2), (''tilt'', PFloat 1),
                                  (''piv_wv'', PFloat 2000), (''piv_wv2'', PFloat 1850),
                                  (''tilt2'', PFloat 0), (''igm'', PStr ''True''),
                                  (''fN_gamma'', PFloat (-1)), (''LL_flatten'', PStr ''True'')]\<rparr>"

text \<open>The same session opened from a fit file without \<open>zqso\<close>.\<close>

definition ex_gui_noz :: gui where
  "ex_gui_noz = ex_gui\<lparr>zqso := None\<rparr>"

text \<open>A session with one system at \<open>z = 1\<close> and one forest line at \<open>z = 0.727\<close>.\<close>

definition ex_sys :: lls_system where
  "ex_sys = new_lls ex_X 1 17.3 20 ''None'' 1"

definition ex_forest :: forest where
  "ex_forest = \<lparr>forest_zabs = 0.727, forest_NHI = 13,
                lines = [\<lparr>wrest = 1215.67, attrib_z = 0.727, attrib_N = 10 powr 13,
                          attrib_b = 20\<rparr>]\<rparr>"

definition ex_gui_sys :: gui where
  "ex_gui_sys = ex_gui\<lparr>count_lls := 1, all_abssys := [ex_sys], all_forest := [ex_forest]\<rparr>"

text \<open>A session with two systems, the second with a comment that starts with a blank.\<close>

definition ex_sys2 :: lls_system where
  "ex_sys2 = new_lls ex_X 0.9 17.5 30 '' weak'' 2"

definition ex_gui_two :: gui where
  "ex_gui_two = ex_gui\<lparr>count_lls := 2, all_abssys := [ex_sys, ex_sys2]\<rparr>"

text \<open>A session with one system whose comment starts with a blank, and the document
  that \<open>write_out\<close> produces for it.\<close>

definition ex_sys_weak :: lls_system where
  "ex_sys_weak = new_lls ex_X 0.9 17.5 30 '' weak'' 1"

definition ex_gui_weak :: gui where
  "ex_gui_weak = ex_gui\<lparr>count_lls := 1, all_abssys := [ex_sys_weak]\<rparr>"

definition ex_doc_weak :: pyval where
  "ex_doc_weak =
     PDict [(''LLS'', PDict [(''1'', PDict [(''z'', PFloat 0.9), (''NHI'', PFloat 17.5),
                                            (''bval'', PFloat 30), (''comment'', PStr ''weak'')])]),
            (''conti_model'', conti_dict ex_gui),
            (''conti'', PList (map PFloat [1, 1, 1, 1, 1, 1, 1, 1])),
            (''spec_file'', PStr ''q.fits''),
            (''smooth'', PNone),
            (''zqso'', PFloat 1.15)]"

text \<open>A click at 1823.4 Angstrom and flux 0.5 in the session \<open>ex_gui\<close>: the column
  density guessed, the system that \<open>auto_plls\<close> finds, and the session before and after
  the model is updated for it.\<close>

definition ex_nhi :: real where
  "ex_nhi = 17.29 + log 10 (-1 * ln (0.5 / 1))"

definition ex_found :: lls_system where
  "ex_found = new_lls ex_X (1900 / 911.7 - 1) ex_nhi 20 ''None'' 1"

definition ex_gui_added :: gui where
  "ex_gui_added = ex_gui\<lparr>count_lls := 1, all_abssys := [ex_found]\<rparr>"

definition ex_gui_found :: gui where
  "ex_gui_found =
     ex_gui_added\<lparr>lls_model := Some [1/4, 1/4, 1, 1/4, 1, 1, 1, 1],
                  full_model := (full_model ex_gui_added)\<lparr>flux := [1/4, 1/4, 1, 1/4, 1, 1, 1, 1]\<rparr>,
                  bad_model := [], model_shown := True\<rparr>"

section \<open>Lemmas on the numpy operations\<close>

lemma filter_upt_snoc:
  "filter (\<lambda>i. P ((xs @ [x]) ! i)) [0..<length xs] = filter (\<lambda>i. P (xs ! i)) [0..<length xs]"
  by (rule filter_cong) (auto simp: nth_append)

lemma rows_at_where: "rows_at xs (np_where (map P xs)) = filter P xs"
proof (induction xs rule: rev_induct)
  case Nil
  show ?case by (simp add: rows_at_def np_where_def)
next
  case (snoc x xs)
  have a: "filter (\<lambda>i. map P (xs @ [x]) ! i) [0..<length xs]
             = filter (\<lambda>i. map P xs ! i) [0..<length xs]"
    by (rule filter_cong) (auto simp: nth_append)
  have b: "map (\<lambda>i. (xs @ [x]) ! i) (filter (\<lambda>i. map P xs ! i) [0..<length xs])
             = map (\<lambda>i. xs ! i) (filter (\<lambda>i. map P xs ! i) [0..<length xs])"
    by (rule map_cong) (auto simp: nth_append)
  from snoc show ?case
    using a b by (simp add: rows_at_def np_where_def nth_append)
qed

lemma where_empty_iff: "(np_where (map P xs) = []) = (filter P xs = [])"
proof -
  have "length (rows_at xs (np_where (map P xs))) = length (np_where (map P xs))"
    by (simp add: rows_at_def)
  then have "length (filter P xs) = length (np_where (map P xs))"
    by (simp add: rows_at_where)
  then show ?thesis by (metis length_0_conv)
qed

lemma where_in_range: "i \<in> set (np_where m) \<Longrightarrow> i < length m"
  by (simp add: np_where_def)

lemma rows_at_map:
  "\<forall>i \<in> set idx. i < length xs \<Longrightarrow> rows_at (map f xs) idx = map f (rows_at xs idx)"
  by (simp add: rows_at_def)

lemma rows_at_map_where:
  "rows_at (map f xs) (np_where (map P (map f xs))) = map f (filter (\<lambda>x. P (f x)) xs)"
proof -
  have "rows_at (map f xs) (np_where (map P (map f xs))) = filter P (map f xs)"
    by (rule rows_at_where)
  then show ?thesis by (simp add: filter_map comp_def)
qed

section \<open>Galaxy association\<close>

lemma np_abs_lt_finite: "b \<noteq> 0 \<Longrightarrow> np_abs_lt (np_divide a b) t = (\<bar>a / b\<bar> < t)"
  by (simp add: np_abs_lt_def np_divide_def)

lemma np_lt_finite: "b \<noteq> 0 \<Longrightarrow> np_lt (np_divide a b) t = (a / b < t)"
  by (simp add: np_lt_def np_divide_def)

lemma np_abs_lt_zero: "np_abs_lt (np_divide a 0) t = False"
  by (simp add: np_abs_lt_def np_divide_def)

text \<open>
  C5. For a field with a galaxy table, \<open>get_associated_galaxies z R dv_tol\<close> returns
  exactly the galaxies with \<open>|c (Z - z) / (1 + z)| < dv_tol\<close> and impact parameter
  \<open>rho < R\<close>, in table order, paired with their impact parameters; it returns \<open>None\<close>
  exactly when the velocity cut, or the impact-parameter cut after it, leaves no galaxy.
  The quotients and the comparisons are numpy's: a division by zero gives \<open>inf\<close> or
  \<open>nan\<close>, which fails \<open>|v| < dv_tol\<close>.
\<close>

theorem get_associated_galaxies_exact:
  assumes "galaxies fld = Some gals"
  shows "get_associated_galaxies separation kpc_amin fld z R dv_tol =
           Inr (let assoc = filter (\<lambda>g. np_abs_lt (np_divide (c_kms * (Z g - z)) (1 + z)) dv_tol
                                        \<and> np_lt (rho1 separation kpc_amin fld g) R) gals
                in if assoc = [] then None
                   else Some (assoc, map (rho1 separation kpc_amin fld) assoc))
         \<and> ((get_associated_galaxies separation kpc_amin fld z R dv_tol = Inr None) =
              (filter (\<lambda>g. np_abs_lt (np_divide (c_kms * (Z g - z)) (1 + z)) dv_tol) gals = []
               \<or> filter (\<lambda>g. np_lt (rho1 separation kpc_amin fld g) R)
                    (filter (\<lambda>g. np_abs_lt (np_divide (c_kms * (Z g - z)) (1 + z)) dv_tol) gals)
                  = []))"
proof -
  let ?V = "\<lambda>g. np_abs_lt (np_divide (c_kms * (Z g - z)) (1 + z)) dv_tol"
  let ?rho = "rho1 separation kpc_amin fld"
  let ?gdz = "np_where (map (\<lambda>dv. np_abs_lt dv dv_tol)
                 (map (\<lambda>g. np_divide (c_kms * (Z g - z)) (1 + z)) gals))"
  let ?gdz_gal = "filter ?V gals"
  let ?gd_rho = "np_where (map (\<lambda>r. np_lt r R) (map ?rho ?gdz_gal))"
  have gdz: "rows_at gals ?gdz = ?gdz_gal"
    using rows_at_where [of gals ?V] by (simp add: comp_def)
  have gdz_empty: "(?gdz = []) = (?gdz_gal = [])"
    using where_empty_iff [of ?V gals] by (simp add: comp_def)
  have rho: "rows_at (map ?rho ?gdz_gal) ?gd_rho = map ?rho (filter (\<lambda>g. np_lt (?rho g) R) ?gdz_gal)"
    by (rule rows_at_map_where)
  have gal: "rows_at ?gdz_gal ?gd_rho = filter (\<lambda>g. np_lt (?rho g) R) ?gdz_gal"
    using rows_at_where [of ?gdz_gal "\<lambda>g. np_lt (?rho g) R"] by (simp add: comp_def)
  have rho_empty: "(?gd_rho = []) = (filter (\<lambda>g. np_lt (?rho g) R) ?gdz_gal = [])"
    using where_empty_iff [of "\<lambda>g. np_lt (?rho g) R" ?gdz_gal] by (simp add: comp_def)
  have both: "filter (\<lambda>g. np_lt (?rho g) R) ?gdz_gal = filter (\<lambda>g. ?V g \<and> np_lt (?rho g) R) gals"
    by (simp add: conj_commute)
  have eq: "get_associated_galaxies separation kpc_amin fld z R dv_tol =
              (if ?gdz_gal = [] then Inr None
               else if filter (\<lambda>g. np_lt (?rho g) R) ?gdz_gal = [] then Inr None
               else Inr (Some (filter (\<lambda>g. np_lt (?rho g) R) ?gdz_gal,
                               map ?rho (filter (\<lambda>g. np_lt (?rho g) R) ?gdz_gal))))"
    unfolding get_associated_galaxies_def calc_rhoimpact_def Let_def
    using assms gdz gdz_empty rho gal rho_empty by simp
  have none: "?gdz_gal = [] \<Longrightarrow> filter (\<lambda>g. ?V g \<and> np_lt (?rho g) R) gals = []"
    by (simp add: filter_empty_conv)
  show ?thesis
    unfolding eq both Let_def using none by (cases "?gdz_gal = []") auto
qed

theorem get_associated_galaxies_exact_witness:
  "galaxies ex_gal_field = Some [ex_gal1, ex_gal2, ex_gal3]
   \<and> get_associated_galaxies ex_separation ex_kpc_amin ex_gal_field 0.5 300 500
       = Inr (Some ([ex_gal1], [Finite (180000 / 1501)]))
   \<and> get_associated_galaxies ex_separation ex_kpc_amin ex_gal_field 0.7 300 500 = Inr None
   \<and> get_associated_galaxies ex_separation ex_kpc_amin ex_gal_field (-1) 300 500 = Inr None
   \<and> np_abs_lt (np_divide (c_kms * (Z ex_gal4 - 0)) (1 + 0)) 400000
   \<and> rho1 ex_separation ex_kpc_amin ex_gal_field_zero ex_gal4 = PosInf
   \<and> get_associated_galaxies ex_separation ex_kpc_amin ex_gal_field_zero 0 300 400000
       = Inr None"
proof -
  have h: "galaxies ex_gal_field = Some [ex_gal1, ex_gal2, ex_gal3]"
    by (simp add: ex_gal_field_def)
  have h0: "galaxies ex_gal_field_zero = Some [ex_gal4]"
    by (simp add: ex_gal_field_zero_def)
  have a: "get_associated_galaxies ex_separation ex_kpc_amin ex_gal_field 0.5 300 500
       = Inr (Some ([ex_gal1], [Finite (180000 / 1501)]))"
    using get_associated_galaxies_exact [OF h, of ex_separation ex_kpc_amin "0.5" 300 500]
    by (simp add: ex_gal1_def ex_gal2_def ex_gal3_def ex_gal_field_def rho1_def
        ex_separation_def ex_kpc_amin_def c_kms_def Let_def np_divide_def np_abs_lt_def np_lt_def)
  have b: "get_associated_galaxies ex_separation ex_kpc_amin ex_gal_field 0.7 300 500 = Inr None"
    using get_associated_galaxies_exact [OF h, of ex_separation ex_kpc_amin "0.7" 300 500]
    by (simp add: ex_gal1_def ex_gal2_def ex_gal3_def ex_gal_field_def rho1_def
        ex_separation_def ex_kpc_amin_def c_kms_def Let_def np_divide_def np_abs_lt_def np_lt_def)
  have c: "get_associated_galaxies ex_separation ex_kpc_amin ex_gal_field (-1) 300 500 = Inr None"
    using get_associated_galaxies_exact [OF h, of ex_separation ex_kpc_amin "-1" 300 500]
    by (simp add: np_abs_lt_zero Let_def)
  have r: "rho1 ex_separation ex_kpc_amin ex_gal_field_zero ex_gal4 = PosInf"
    by (simp add: ex_gal4_def ex_gal_field_zero_def rho1_def ex_separation_def ex_kpc_amin_def
        np_divide_def)
  have d: "get_associated_galaxies ex_separation ex_kpc_amin ex_gal_field_zero 0 300 400000
       = Inr None"
    using get_associated_galaxies_exact [OF h0, of ex_separation ex_kpc_amin 0 300 400000]
    by (simp add: r np_lt_def)
  have v: "np_abs_lt (np_divide (c_kms * (Z ex_gal4 - 0)) (1 + 0)) 400000"
    by (simp add: ex_gal4_def c_kms_def np_divide_def np_abs_lt_def)
  from h a b c v r d show ?thesis by simp
qed

section \<open>Observed and unobserved targets\<close>

lemma length_set_at: "length (set_at xs idx v) = length xs"
  unfolding set_at_def by (induction idx arbitrary: xs) auto

lemma nth_set_at:
  "j < length xs \<Longrightarrow> set_at xs idx v ! j = (if j \<in> set idx then v else xs ! j)"
  unfolding set_at_def
proof (induction idx arbitrary: xs)
  case Nil
  then show ?case by simp
next
  case (Cons i idx)
  have "fold (\<lambda>i ys. ys[i := v]) idx (xs[i := v]) ! j
          = (if j \<in> set idx then v else xs[i := v] ! j)"
    using Cons.IH [of "xs[i := v]"] Cons.prems by simp
  then show ?case using Cons.prems by (auto simp: nth_list_update)
qed

lemma mask_select_map: "mask_select xs (map P xs) = filter P xs"
  unfolding mask_select_def by (induction xs) auto

lemma observed_loop_inv:
  "observed_loop fld all_masks have_mask ms (tmsk, od) = Inr (tmsk', od') \<Longrightarrow>
     length tmsk' = length tmsk \<and>
     (\<forall>j < length tmsk. tmsk' ! j =
        (tmsk ! j \<or> (\<exists>m \<in> set ms.
            j \<in> set (rows_at have_mask (np_where (map (\<lambda>x. x = m) all_masks)))
            \<and> (\<exists>ds. get_mask_obsdate fld m = Inr ds \<and> ds \<noteq> []))))"
proof (induction ms arbitrary: tmsk od)
  case Nil
  then show ?case by simp
next
  case (Cons m ms)
  show ?case
  proof (cases "get_mask_obsdate fld m")
    case (Inl e)
    with Cons.prems show ?thesis by simp
  next
    case (Inr ds)
    show ?thesis
    proof (cases "ds = []")
      case True
      with Inr Cons.prems have "observed_loop fld all_masks have_mask ms (tmsk, od) = Inr (tmsk', od')"
        by simp
      from Cons.IH [OF this] Inr True show ?thesis by auto
    next
      case False
      let ?idx = "rows_at have_mask (np_where (map (\<lambda>x. x = m) all_masks))"
      from False Inr Cons.prems
      have "observed_loop fld all_masks have_mask ms (set_at tmsk ?idx True, od(m \<mapsto> ds)) = Inr (tmsk', od')"
        by (simp add: Let_def)
      from Cons.IH [OF this] Inr False show ?thesis
        by (auto simp: length_set_at nth_set_at)
    qed
  qed
qed

lemma rows_at_where_map:
  "rows_at hm (np_where (map P (map f hm))) = filter (\<lambda>i. P (f i)) hm"
  using rows_at_where [of hm "\<lambda>i. P (f i)"] by (simp add: comp_def)

lemma observed_mask:
  fixes subtab :: "target list"
  defines "have_mask \<equiv> np_where (map (\<lambda>t. MASK_NAME t \<noteq> None) subtab)"
  defines "all_masks \<equiv> map (\<lambda>i. the (MASK_NAME (subtab ! i))) have_mask"
  assumes loop: "observed_loop fld all_masks have_mask (remdups all_masks)
                   (replicate (length subtab) False, Map.empty) = Inr (tmsk', od')"
  shows "tmsk' = map (is_observed fld) subtab"
proof (rule nth_equalityI)
  from observed_loop_inv [OF loop] show len: "length tmsk' = length (map (is_observed fld) subtab)"
    by simp
  fix j assume "j < length tmsk'"
  with len have j: "j < length subtab" by simp
  have hm: "(i \<in> set have_mask) = (i < length subtab \<and> MASK_NAME (subtab ! i) \<noteq> None)" for i
    unfolding have_mask_def np_where_def by (simp cong: conj_cong)
  have sel: "(i \<in> set (rows_at have_mask (np_where (map (\<lambda>x. x = m) all_masks))))
               = (i < length subtab \<and> MASK_NAME (subtab ! i) = Some m)" for m i
  proof -
    have "rows_at have_mask (np_where (map (\<lambda>x. x = m) all_masks))
            = filter (\<lambda>i. the (MASK_NAME (subtab ! i)) = m) have_mask"
      unfolding all_masks_def by (rule rows_at_where_map)
    then show ?thesis by (auto simp: hm)
  qed
  have mem: "m \<in> set all_masks" if m: "MASK_NAME (subtab ! j) = Some m" for m
  proof -
    from j m have "j \<in> set have_mask" by (simp add: hm)
    then have "the (MASK_NAME (subtab ! j)) \<in> set all_masks"
      unfolding all_masks_def set_map by (rule imageI)
    with m show ?thesis by simp
  qed
  from observed_loop_inv [OF loop] j
  have "tmsk' ! j = (\<exists>m \<in> set all_masks. MASK_NAME (subtab ! j) = Some m
                       \<and> (\<exists>ds. get_mask_obsdate fld m = Inr ds \<and> ds \<noteq> []))"
    by (simp add: sel)
  also have "\<dots> = is_observed fld (subtab ! j)"
  proof (cases "MASK_NAME (subtab ! j)")
    case None
    then show ?thesis by (simp add: is_observed_def)
  next
    case (Some m)
    with mem have "m \<in> set all_masks" by simp
    with Some show ?thesis
      by (cases "get_mask_obsdate fld m") (simp_all add: is_observed_def)
  qed
  finally show "tmsk' ! j = map (is_observed fld) subtab ! j"
    using j by simp
qed

lemma get_observed_Some:
  assumes "get_observed separation fld theta (Some subtab) = Inr (Some (obs_tab, odict))"
  shows "obs_tab = filter (is_observed fld) subtab"
proof -
  let ?hm = "np_where (map (\<lambda>t. MASK_NAME t \<noteq> None) subtab)"
  let ?am = "map (\<lambda>i. the (MASK_NAME (subtab ! i))) ?hm"
  from assms obtain tmsk' where
    loop: "observed_loop fld ?am ?hm (remdups ?am) (replicate (length subtab) False, Map.empty)
             = Inr (tmsk', odict)"
    and obs: "obs_tab = mask_select subtab tmsk'"
    unfolding get_observed_def Let_def
    by (auto split: option.splits if_splits sum.splits prod.splits)
  from observed_mask [OF loop] obs show ?thesis
    by (simp add: mask_select_map)
qed

lemma get_observed_subtab:
  assumes "targets fld = Some targs" and "within_theta separation fld targs theta \<noteq> []"
  shows "get_observed separation fld theta None
           = get_observed separation fld theta (Some (within_theta separation fld targs theta))"
proof -
  have "(Some (within_theta separation fld targs theta) = None
          \<and> length (within_theta separation fld targs theta) = 0) = False"
    by simp
  moreover have "(None = (None :: target list option)
          \<and> length (within_theta separation fld targs theta) = 0) = False"
    using assms by simp
  ultimately show ?thesis
    unfolding get_observed_def using assms(1)
    by (simp only: option.case prod.case Let_def)
qed

lemma get_observed_None:
  assumes "get_observed separation fld theta None = Inr (Some r)"
  shows "\<exists>targs obs. targets fld = Some targs \<and> observing fld = Some obs
           \<and> within_theta separation fld targs theta \<noteq> []"
proof (cases "targets fld")
  case None
  with assms show ?thesis by (simp add: get_observed_def)
next
  case (Some targs)
  note t = this
  show ?thesis
  proof (cases "observing fld")
    case None
    with t assms show ?thesis by (simp add: get_observed_def)
  next
    case (Some obs)
    show ?thesis
    proof (cases "within_theta separation fld targs theta = []")
      case True
      with t Some assms show ?thesis by (simp add: get_observed_def)
    next
      case False
      with t Some show ?thesis by simp
    qed
  qed
qed

lemma unobserved_loop_inv:
  "length (unobserved_loop ras (enumerate k rows) tmsk) = length tmsk \<and>
   (\<forall>j < length tmsk. unobserved_loop ras (enumerate k rows) tmsk ! j =
      (tmsk ! j \<and> \<not> (k \<le> j \<and> j < k + length rows \<and> TARG_RA (rows ! (j - k)) \<in> set ras)))"
proof (induction rows arbitrary: k tmsk)
  case Nil
  then show ?case by simp
next
  case (Cons r rows)
  show ?case
  proof (cases "TARG_RA r \<in> set ras")
    case True
    then show ?thesis
      using Cons.IH [of "Suc k" "tmsk[k := False]"]
      apply (simp add: nth_list_update)
      apply (intro allI impI)
      subgoal for j by (cases "j = k") (auto simp: nth_Cons' Suc_diff_le)
      done
  next
    case False
    then show ?thesis
      using Cons.IH [of "Suc k" tmsk]
      apply simp
      apply (intro allI impI)
      subgoal for j by (cases "j = k") (auto simp: nth_Cons' Suc_diff_le)
      done
  qed
qed

lemma unobserved_mask:
  "unobserved_loop ras (enumerate 0 subtab) (replicate (length subtab) True)
     = map (\<lambda>t. TARG_RA t \<notin> set ras) subtab"
  by (rule nth_equalityI) (simp_all add: unobserved_loop_inv)


lemma ex_AB_within:
  "within_theta ex_separation ex_field_AB [ex_targA, ex_targB] 5 = [ex_targA, ex_targB]"
  by (simp add: within_theta_def rows_at_def np_where_def ex_targA_def ex_targB_def
      ex_field_AB_def ex_separation_def Let_def)

lemma ex_AB_targets: "targets ex_field_AB = Some [ex_targA, ex_targB]"
  by (simp add: ex_field_AB_def)

lemma ex_AB_observing: "observing ex_field_AB = Some ex_obs"
  by (simp add: ex_field_AB_def)

lemma ex_AB_obsdate: "get_mask_obsdate ex_field_AB ''m1'' = Inr [Some ''2014-11-29'']"
  by (simp add: get_mask_obsdate_def rows_at_def np_where_def ex_obs_def ex_field_AB_def Let_def)

lemma ex_AB_observed_subtab:
  "get_observed ex_separation ex_field_AB 5 (Some [ex_targA, ex_targB])
     = Inr (Some ([ex_targA], [''m1'' \<mapsto> [Some ''2014-11-29'']]))"
  by (simp add: get_observed_def ex_AB_targets ex_AB_observing ex_AB_obsdate rows_at_def
      np_where_def Let_def mask_select_def set_at_def ex_targA_def ex_targB_def)

lemma ex_AB_observed:
  "get_observed ex_separation ex_field_AB 5 None
     = Inr (Some ([ex_targA], [''m1'' \<mapsto> [Some ''2014-11-29'']]))"
  using get_observed_subtab [of ex_field_AB "[ex_targA, ex_targB]" ex_separation 5]
  by (simp add: ex_AB_targets ex_AB_within ex_AB_observed_subtab)

lemma ex_AB_unobserved: "get_unobserved ex_separation ex_field_AB 5 = Inr (Some [])"
  by (simp add: get_unobserved_def ex_AB_targets ex_AB_observing ex_AB_within
      ex_AB_observed_subtab mask_select_def)
     (simp add: ex_targA_def ex_targB_def)

lemma ex_AC_within:
  "within_theta ex_separation ex_field_AC [ex_targA, ex_targC] 5 = [ex_targA, ex_targC]"
  by (simp add: within_theta_def rows_at_def np_where_def ex_targA_def ex_targC_def
      ex_field_AC_def ex_separation_def Let_def)

lemma ex_AC_targets: "targets ex_field_AC = Some [ex_targA, ex_targC]"
  by (simp add: ex_field_AC_def)

lemma ex_AC_observing: "observing ex_field_AC = Some ex_obs"
  by (simp add: ex_field_AC_def)

lemma ex_AC_obsdate: "get_mask_obsdate ex_field_AC ''m1'' = Inr [Some ''2014-11-29'']"
  by (simp add: get_mask_obsdate_def rows_at_def np_where_def ex_obs_def ex_field_AC_def Let_def)

lemma ex_AC_observed_subtab:
  "get_observed ex_separation ex_field_AC 5 (Some [ex_targA, ex_targC])
     = Inr (Some ([ex_targA], [''m1'' \<mapsto> [Some ''2014-11-29'']]))"
  by (simp add: get_observed_def ex_AC_targets ex_AC_observing ex_AC_obsdate rows_at_def
      np_where_def Let_def mask_select_def set_at_def ex_targA_def ex_targC_def)

lemma ex_AC_observed:
  "get_observed ex_separation ex_field_AC 5 None
     = Inr (Some ([ex_targA], [''m1'' \<mapsto> [Some ''2014-11-29'']]))"
  using get_observed_subtab [of ex_field_AC "[ex_targA, ex_targC]" ex_separation 5]
  by (simp add: ex_AC_targets ex_AC_within ex_AC_observed_subtab)

text \<open>
  C6 as stated fails: \<open>get_unobserved\<close> drops every target whose \<open>TARG_RA\<close> occurs
  among the observed targets. In the field \<open>ex_field_AB\<close> both targets lie within
  \<open>theta\<close>, \<open>get_observed\<close> returns \<open>ex_targA\<close> alone and \<open>get_unobserved\<close> returns the
  empty table, so \<open>ex_targB\<close> is in neither table.
\<close>

theorem get_unobserved_cover_counterexample:
  "map_option fst (projr (get_observed ex_separation ex_field_AB 5 None)) = Some [ex_targA]
   \<and> get_unobserved ex_separation ex_field_AB 5 = Inr (Some [])
   \<and> within_theta ex_separation ex_field_AB (the (targets ex_field_AB)) 5 = [ex_targA, ex_targB]
   \<and> ex_targB \<noteq> ex_targA"
  by (simp add: ex_AB_observed ex_AB_unobserved ex_AB_targets ex_AB_within)
     (simp add: ex_targA_def ex_targB_def)

text \<open>
  C6, amended. Whenever \<open>get_observed theta\<close> returns a table, \<open>get_unobserved theta\<close>
  returns exactly the targets within \<open>theta\<close> whose \<open>TARG_RA\<close> is not the \<open>TARG_RA\<close> of an
  observed target. The two tables are disjoint, and together they hold every target
  within \<open>theta\<close> once, provided that every target within \<open>theta\<close> that shares its
  \<open>TARG_RA\<close> with an observed target is itself observed.
\<close>

theorem get_unobserved_by_RA:
  assumes "get_observed separation fld theta None = Inr (Some (obs_tab, odict))"
  shows "(let near = within_theta separation fld (the (targets fld)) theta;
              unobs = filter (\<lambda>t. TARG_RA t \<notin> TARG_RA ` set obs_tab) near
          in get_unobserved separation fld theta = Inr (Some unobs)
             \<and> obs_tab = filter (is_observed fld) near
             \<and> set obs_tab \<inter> set unobs = {}
             \<and> ((\<forall>t \<in> set near. TARG_RA t \<in> TARG_RA ` set obs_tab \<longrightarrow> t \<in> set obs_tab)
                  \<longrightarrow> mset obs_tab + mset unobs = mset near))"
proof -
  from get_observed_None [OF assms] obtain targs obs where
    t: "targets fld = Some targs" and o: "observing fld = Some obs"
    and ne: "within_theta separation fld targs theta \<noteq> []"
    by blast
  let ?within = "within_theta separation fld targs theta"
  let ?unobs = "filter (\<lambda>t. TARG_RA t \<notin> TARG_RA ` set obs_tab) ?within"
  from get_observed_subtab [OF t ne] assms
  have sub: "get_observed separation fld theta (Some ?within) = Inr (Some (obs_tab, odict))"
    by simp
  from get_observed_Some [OF sub] have obs_eq: "obs_tab = filter (is_observed fld) ?within" .
  have un: "get_unobserved separation fld theta = Inr (Some ?unobs)"
    unfolding get_unobserved_def using t o ne sub
    by (simp add: Let_def unobserved_mask mask_select_map)
  have disj: "set obs_tab \<inter> set ?unobs = {}"
    by auto
  have cover: "mset obs_tab + mset ?unobs = mset ?within"
    if c: "\<forall>t \<in> set ?within. TARG_RA t \<in> TARG_RA ` set obs_tab \<longrightarrow> t \<in> set obs_tab"
  proof -
    have "?unobs = filter (\<lambda>t. \<not> is_observed fld t) ?within"
    proof (rule filter_cong [OF refl])
      fix t assume tin: "t \<in> set ?within"
      have "(t \<in> set obs_tab) = is_observed fld t"
        using tin by (subst obs_eq) simp
      moreover have "(TARG_RA t \<in> TARG_RA ` set obs_tab) = (t \<in> set obs_tab)"
        using c tin by blast
      ultimately show "(TARG_RA t \<notin> TARG_RA ` set obs_tab) = (\<not> is_observed fld t)"
        by simp
    qed
    then have "mset ?unobs = filter_mset (\<lambda>t. \<not> is_observed fld t) (mset ?within)"
      by simp
    moreover have "mset obs_tab = filter_mset (is_observed fld) (mset ?within)"
      by (subst obs_eq) simp
    ultimately show ?thesis
      by (simp only: multiset_partition [symmetric])
  qed
  show ?thesis
    unfolding Let_def using t un obs_eq disj cover by simp
qed

theorem get_unobserved_by_RA_witness:
  "get_observed ex_separation ex_field_AC 5 None
     = Inr (Some ([ex_targA], [''m1'' \<mapsto> [Some ''2014-11-29'']]))
   \<and> get_unobserved ex_separation ex_field_AC 5 = Inr (Some [ex_targC])
   \<and> mset [ex_targA] + mset [ex_targC]
       = mset (within_theta ex_separation ex_field_AC (the (targets ex_field_AC)) 5)"
proof -
  note h = ex_AC_observed
  have ra: "TARG_RA ex_targC \<noteq> TARG_RA ex_targA"
    by (simp add: ex_targA_def ex_targC_def)
  from get_unobserved_by_RA [OF h] ra
  have "get_unobserved ex_separation ex_field_AC 5 = Inr (Some [ex_targC])
        \<and> mset [ex_targA] + mset [ex_targC]
            = mset (within_theta ex_separation ex_field_AC (the (targets ex_field_AC)) 5)"
    by (simp add: Let_def ex_AC_targets ex_AC_within)
  with h show ?thesis by simp
qed

section \<open>The continuum dict\<close>

text \<open>
  C8. \<open>init_conti_dict\<close> raises, and then ValueError, exactly when \<open>piv_wv2\<close> is a number
  greater than \<open>piv_wv\<close>; otherwise it returns a dict that has the key \<^verbatim>\<open>'piv_wv2'\<close>
  exactly when \<open>piv_wv2\<close> is not \<open>None\<close>. The default call returns the seven other keys.
\<close>

theorem init_conti_dict_raises_iff:
  "(case init_conti_dict Norm tilt tilt2 piv_wv piv_wv2 igm fN_gamma LL_flatten of
      Inl e \<Rightarrow> e = ValueError \<and> (\<exists>v. piv_wv2 = Some v \<and> v > piv_wv)
    | Inr d \<Rightarrow> \<not> (\<exists>v. piv_wv2 = Some v \<and> v > piv_wv)
               \<and> dict_has d ''piv_wv2'' = (piv_wv2 \<noteq> None))
   \<and> init_conti_dict 0 0 0 0 None (PStr ''None'') (-1) (PStr ''True'')
       = Inr [(''Norm'', PFloat 0), (''tilt'', PFloat 0), (''piv_wv'', PFloat 0),
              (''tilt2'', PFloat 0), (''igm'', PStr ''None''), (''fN_gamma'', PFloat (-1)),
              (''LL_flatten'', PStr ''True'')]"
  by (cases piv_wv2) (simp_all add: init_conti_dict_def py2_gt_def dict_has_def dict_pop_def)

theorem init_conti_dict_raises_iff_witness:
  "init_conti_dict 1 0 0 1000 (Some 1200) (PStr ''None'') (-1) (PStr ''True'') = Inl ValueError
   \<and> dict_has (projr (init_conti_dict 1 0 0 1000 (Some 900) (PStr ''None'') (-1) (PStr ''True'')))
        ''piv_wv2''
   \<and> \<not> dict_has (projr (init_conti_dict 1 0 0 1000 None (PStr ''None'') (-1) (PStr ''True'')))
        ''piv_wv2''"
proof -
  have a: "init_conti_dict 1 0 0 1000 (Some 1200) (PStr ''None'') (-1) (PStr ''True'') = Inl ValueError"
    using init_conti_dict_raises_iff [of "Some 1200" 1000 1 0 0 "PStr ''None''" "-1" "PStr ''True''"]
    by (simp split: sum.splits)
  have b: "dict_has (projr (init_conti_dict 1 0 0 1000 (Some 900) (PStr ''None'') (-1) (PStr ''True'')))
        ''piv_wv2''"
    using init_conti_dict_raises_iff [of "Some 900" 1000 1 0 0 "PStr ''None''" "-1" "PStr ''True''"]
    by (simp split: sum.splits)
  have c: "\<not> dict_has (projr (init_conti_dict 1 0 0 1000 None (PStr ''None'') (-1) (PStr ''True'')))
        ''piv_wv2''"
    using init_conti_dict_raises_iff [of None 1000 1 0 0 "PStr ''None''" "-1" "PStr ''True''"]
    by (simp split: sum.splits)
  from a b c show ?thesis by simp
qed

section \<open>The Telfer template\<close>

lemma mask_select_map2: "mask_select (map f xs) (map P xs) = map f (filter P xs)"
  unfolding mask_select_def by (induction xs) auto

lemma filter_first:
  assumes "i0 < length xs" and "P (xs ! i0)" and "\<forall>j < i0. \<not> P (xs ! j)"
  shows "filter P xs = xs ! i0 # filter P (drop (Suc i0) xs)"
proof -
  have "filter P (take i0 xs) = []"
    using assms by (auto simp: filter_empty_conv in_set_conv_nth)
  moreover have "xs = take i0 xs @ xs ! i0 # drop (Suc i0) xs"
    using assms(1) by (rule id_take_nth_drop)
  ultimately show ?thesis
    using assms(2) by (metis append_Nil filter.simps(2) filter_append)
qed

text \<open>
  C7. With \<open>igm\<close> false, \<open>get_telfer_spec\<close> gives the same result whatever \<open>fN_gamma\<close> and
  \<open>LL_flatten\<close> (and whatever the opacity function mapped by the worker pool) are. When
  the table has a row with \<open>wrest = 1450\<close> and the first such row has a non-zero flux,
  the result is the spectrum with dispersion \<open>wrest * (1 + zq)\<close> for the redshift \<open>zq\<close> and the table's flux
  divided by the flux of that row, which is 1 at that row.
\<close>

theorem get_telfer_spec_no_igm:
  assumes "i0 < length telfer" and "fst (telfer ! i0) = 1450"
    and "\<forall>j < i0. fst (telfer ! j) \<noteq> 1450" and "snd (telfer ! i0) \<noteq> 0"
  shows "get_telfer_spec telfer map_etl median zq False fN_gamma LL_flatten
           = Inr (from_tuple (map (\<lambda>r. fst r * (1 + zq)) telfer,
                              map (\<lambda>r. snd r / snd (telfer ! i0)) telfer))
         \<and> flux (projr (get_telfer_spec telfer map_etl median zq False fN_gamma LL_flatten)) ! i0 = 1
         \<and> get_telfer_spec telfer map_etl median zq False fN_gamma LL_flatten
             = get_telfer_spec telfer map_etl' median' zq False fN_gamma' LL_flatten'"
proof -
  have sc: "mask_select (map snd telfer) (map (\<lambda>r. fst r = 1450) telfer)
              = snd (telfer ! i0) # map snd (filter (\<lambda>r. fst r = 1450) (drop (Suc i0) telfer))"
    using filter_first [of i0 telfer "\<lambda>r. fst r = 1450"] assms(1-3)
    by (simp add: mask_select_map2)
  have eq: "get_telfer_spec telfer me md zq False g l
           = Inr (from_tuple (map (\<lambda>r. fst r * (1 + zq)) telfer,
                              map (\<lambda>r. snd r / snd (telfer ! i0)) telfer))" for me md g l
    unfolding get_telfer_spec_def by (simp add: sc)
  have one: "flux (from_tuple (map (\<lambda>r. fst r * (1 + zq)) telfer,
                              map (\<lambda>r. snd r / snd (telfer ! i0)) telfer)) ! i0 = 1"
    using assms(1,4) by (simp add: from_tuple_def)
  show ?thesis
    using one by (simp add: eq)
qed

theorem get_telfer_spec_no_igm_witness:
  "get_telfer_spec ex_telfer (\<lambda>l z g. 0) hd 2 False None True
     = Inr (from_tuple ([3000, 4350, 6000], [3 / 2, 1, 1 / 2]))
   \<and> get_telfer_spec ex_telfer (\<lambda>l z g. 0) hd 2 False None True
     = get_telfer_spec ex_telfer (\<lambda>l z g. 1) last 2 False (Some 1.5) False"
proof -
  have h: "1 < length ex_telfer" "fst (ex_telfer ! 1) = 1450"
    "\<forall>j < 1. fst (ex_telfer ! j) \<noteq> 1450" "snd (ex_telfer ! 1) \<noteq> 0"
    by (simp_all add: ex_telfer_def)
  note t = get_telfer_spec_no_igm [OF h, where map_etl = "\<lambda>l z g. 0" and median = hd
      and zq = 2 and fN_gamma = None and LL_flatten = True and map_etl' = "\<lambda>l z g. 1"
      and median' = last and fN_gamma' = "Some 1.5" and LL_flatten' = False]
  have "from_tuple (map (\<lambda>r. fst r * (1 + 2)) ex_telfer, map (\<lambda>r. snd r / snd (ex_telfer ! 1)) ex_telfer)
          = from_tuple ([3000, 4350, 6000], [3 / 2, 1, 1 / 2])"
    by (simp add: ex_telfer_def)
  with t [THEN conjunct1] t [THEN conjunct2, THEN conjunct2] show ?thesis
    by (simp only:)
qed

section \<open>Lemmas on the error monad and masked assignment\<close>

lemma length_mask_assign: "length (mask_assign xs ms vs) = length xs"
  by (induction xs ms vs rule: mask_assign.induct) auto

lemma length_mask_select: "length xs = length ms \<Longrightarrow> length (mask_select xs ms) = length (filter id ms)"
  unfolding mask_select_def by (induction xs ms rule: list_induct2) auto

lemma mask_assign_select:
  "length xs = length ms \<Longrightarrow> length ms = length ys \<Longrightarrow>
     mask_assign xs ms (map f (mask_select ys ms))
       = map (\<lambda>(x, m, y). if m then f y else x) (zip xs (zip ms ys))"
proof (induction xs ms ys rule: list_induct3)
  case Nil
  show ?case by simp
next
  case (Cons x xs m ms y ys)
  then show ?case by (cases m) (simp_all add: mask_select_def)
qed

lemma zip_mask_select:
  "length xs = length ys \<Longrightarrow> length ys = length ms \<Longrightarrow>
     zip (mask_select xs ms) (mask_select ys ms) = mask_select (zip xs ys) ms"
  unfolding mask_select_def by (induction xs ys ms rule: list_induct3) auto

lemma map2_mask_select:
  assumes "length xs = length ys" and "length ys = length ms"
  shows "map2 f (mask_select xs ms) (map h (mask_select ys ms))
           = map (\<lambda>(x, y). f x (h y)) (mask_select (zip xs ys) ms)"
proof -
  have "map2 f (mask_select xs ms) (map h (mask_select ys ms))
          = map (\<lambda>(x, y). f x (h y)) (zip (mask_select xs ms) (mask_select ys ms))"
    by (simp add: zip_map2 split_def)
  then show ?thesis using assms by (simp add: zip_mask_select)
qed

lemma np_bin_same: "length xs = length ys \<Longrightarrow> np_bin f xs ys = Inr (map2 f xs ys)"
  by (simp add: np_bin_def)

lemma ebind_Inr_iff: "(ebind m f = Inr y) = (\<exists>x. m = Inr x \<and> f x = Inr y)"
  by (cases m) (simp_all add: ebind_def)

lemma ebind_Inr [simp]: "ebind (Inr x) f = f x"
  by (simp add: ebind_def)

lemma ebind_Inl [simp]: "ebind (Inl e) f = Inl e"
  by (simp add: ebind_def)

lemma refresh_continuum: "refresh_full_model g = Inr g' \<Longrightarrow> continuum g' = continuum g"
  by (auto simp: refresh_full_model_def ebind_Inr_iff split: option.splits)

lemma double_tilt_arrays:
  fixes cflux wave flux0 :: "real list" and p2 :: real
  assumes len: "length cflux = length wave" "length flux0 = length wave"
  defines "lowwv \<equiv> map (\<lambda>w. w < p2) wave"
  shows "\<exists>low flux1 high.
           np_bin (*) (mask_select cflux lowwv) (map F (mask_select wave lowwv)) = Inr low
         \<and> np_mask_set flux0 lowwv low = Inr flux1
         \<and> np_bin (*) (mask_select cflux (map Not lowwv)) (map G (mask_select wave (map Not lowwv))) = Inr high
         \<and> np_mask_set flux1 (map Not lowwv) high
             = Inr (map2 (\<lambda>c w. if w < p2 then c * F w else c * G w) cflux wave)"
proof -
  let ?hi = "map Not lowwv"
  let ?low = "map (\<lambda>(c, w). c * F w) (mask_select (zip cflux wave) lowwv)"
  let ?high = "map (\<lambda>(c, w). c * G w) (mask_select (zip cflux wave) ?hi)"
  let ?flux1 = "mask_assign flux0 lowwv ?low"
  have l: "length lowwv = length wave" "length ?hi = length wave"
    by (simp_all add: lowwv_def)
  have a: "np_bin (*) (mask_select cflux lowwv) (map F (mask_select wave lowwv)) = Inr ?low"
    using len l by (simp add: np_bin_same length_mask_select map2_mask_select)
  have b: "np_mask_set flux0 lowwv ?low = Inr ?flux1"
    using len l by (simp add: np_mask_set_def length_mask_select)
  have c: "np_bin (*) (mask_select cflux ?hi) (map G (mask_select wave ?hi)) = Inr ?high"
    using len l by (simp add: np_bin_same length_mask_select map2_mask_select)
  have f1: "?flux1 = map (\<lambda>(x, m, cw). if m then (\<lambda>(c, w). c * F w) cw else x)
                       (zip flux0 (zip lowwv (zip cflux wave)))"
    using len l by (simp add: mask_assign_select)
  have f2: "mask_assign ?flux1 ?hi ?high
              = map (\<lambda>(x, m, cw). if m then (\<lambda>(c, w). c * G w) cw else x)
                    (zip ?flux1 (zip ?hi (zip cflux wave)))"
    using len l by (simp add: mask_assign_select length_mask_assign)
  have d: "np_mask_set ?flux1 ?hi ?high = Inr (mask_assign ?flux1 ?hi ?high)"
    using len l by (simp add: np_mask_set_def length_mask_select length_mask_assign)
  have e: "mask_assign ?flux1 ?hi ?high
             = map2 (\<lambda>c w. if w < p2 then c * F w else c * G w) cflux wave"
  proof (rule nth_equalityI)
    show "length (mask_assign ?flux1 ?hi ?high)
            = length (map2 (\<lambda>c w. if w < p2 then c * F w else c * G w) cflux wave)"
      using len by (simp add: length_mask_assign)
  next
    fix i assume "i < length (mask_assign ?flux1 ?hi ?high)"
    then have i: "i < length wave" using len by (simp add: length_mask_assign)
    have "mask_assign ?flux1 ?hi ?high ! i
            = (if \<not> lowwv ! i then cflux ! i * G (wave ! i) else ?flux1 ! i)"
      unfolding f2 using i len l by (simp add: length_mask_assign)
    also have "?flux1 ! i = (if lowwv ! i then cflux ! i * F (wave ! i) else flux0 ! i)"
      unfolding f1 using i len l by simp
    finally show "mask_assign ?flux1 ?hi ?high ! i
            = map2 (\<lambda>c w. if w < p2 then c * F w else c * G w) cflux wave ! i"
      using i len by (simp add: lowwv_def)
  qed
  from a b c d e show ?thesis by simp
qed

section \<open>The continuum\<close>

lemma update_conti_single:
  assumes "base_continuum g = Some base"
    and "conti_get (conti_dict g) ''Norm'' = Inr Norm"
    and "conti_has (conti_dict g) ''piv_wv2'' = Inr False"
    and "conti_get (conti_dict g) ''piv_wv'' = Inr piv_wv"
    and "conti_get (conti_dict g) ''tilt'' = Inr tilt"
    and "length base = length (dispersion (continuum g))"
  shows "update_conti X g =
           refresh_full_model (g\<lparr>continuum := (continuum g)\<lparr>flux :=
             map2 (\<lambda>b w. b * Norm * np_power X (w / piv_wv) tilt) base (dispersion (continuum g))\<rparr>\<rparr>)"
proof -
  have "map2 (*) (map (\<lambda>b. b * Norm) base)
          (map (\<lambda>w. np_power X (w / piv_wv) tilt) (dispersion (continuum g)))
        = map2 (\<lambda>b w. b * Norm * np_power X (w / piv_wv) tilt) base (dispersion (continuum g))"
    by (simp add: zip_map1 zip_map2 split_def)
  then show ?thesis
    unfolding update_conti_def using assms by (simp add: np_bin_same Let_def)
qed

lemma update_conti_double:
  assumes "base_continuum g = Some base"
    and "conti_get (conti_dict g) ''Norm'' = Inr Norm"
    and "conti_has (conti_dict g) ''piv_wv2'' = Inr True"
    and "conti_get (conti_dict g) ''piv_wv2'' = Inr piv_wv2"
    and "conti_get (conti_dict g) ''tilt2'' = Inr tilt2"
    and "conti_get (conti_dict g) ''piv_wv'' = Inr piv_wv"
    and "conti_get (conti_dict g) ''tilt'' = Inr tilt"
    and len: "length base = length (dispersion (continuum g))"
    and len0: "length (flux (continuum g)) = length (dispersion (continuum g))"
  shows "update_conti X g =
           refresh_full_model (g\<lparr>continuum := (continuum g)\<lparr>flux :=
             map2 (\<lambda>b w. if w < piv_wv2 then b * Norm * np_power X (w / piv_wv2) tilt2
                           else b * Norm * np_power X (w / piv_wv) tilt)
               base (dispersion (continuum g))\<rparr>\<rparr>)"
proof -
  let ?wave = "dispersion (continuum g)"
  let ?cflux = "map (\<lambda>b. b * Norm) base"
  let ?lowwv = "map (\<lambda>w. w < piv_wv2) ?wave"
  have lc: "length ?cflux = length ?wave" using len by simp
  from double_tilt_arrays [OF lc len0, where F = "\<lambda>w. np_power X (w / piv_wv2) tilt2"
      and ?p2.0 = piv_wv2 and G = "\<lambda>w. np_power X (w / piv_wv) tilt"]
  obtain low flux1 high where
    a: "np_bin (*) (mask_select ?cflux ?lowwv)
          (map (\<lambda>w. np_power X (w / piv_wv2) tilt2) (mask_select ?wave ?lowwv)) = Inr low"
    and b: "np_mask_set (flux (continuum g)) ?lowwv low = Inr flux1"
    and c: "np_bin (*) (mask_select ?cflux (map Not ?lowwv))
          (map (\<lambda>w. np_power X (w / piv_wv) tilt) (mask_select ?wave (map Not ?lowwv))) = Inr high"
    and d: "np_mask_set flux1 (map Not ?lowwv) high
             = Inr (map2 (\<lambda>c w. if w < piv_wv2 then c * np_power X (w / piv_wv2) tilt2
                                  else c * np_power X (w / piv_wv) tilt) ?cflux ?wave)"
    by blast
  have e: "map2 (\<lambda>c w. if w < piv_wv2 then c * np_power X (w / piv_wv2) tilt2
                                  else c * np_power X (w / piv_wv) tilt) ?cflux ?wave
        = map2 (\<lambda>b w. if w < piv_wv2 then b * Norm * np_power X (w / piv_wv2) tilt2
                           else b * Norm * np_power X (w / piv_wv) tilt) base ?wave"
    by (simp add: zip_map1 split_def)
  have g1: "np_mask_get ?cflux ?lowwv = Inr (mask_select ?cflux ?lowwv)"
    "np_mask_get ?wave ?lowwv = Inr (mask_select ?wave ?lowwv)"
    "np_mask_get ?cflux (map Not ?lowwv) = Inr (mask_select ?cflux (map Not ?lowwv))"
    "np_mask_get ?wave (map Not ?lowwv) = Inr (mask_select ?wave (map Not ?lowwv))"
    using len by (simp_all add: np_mask_get_def)
  show ?thesis
    unfolding update_conti_def using assms(1-7)
    by (simp add: Let_def g1 a b c d e del: map_map)
qed

lemma ebind_Inr_E:
  assumes "ebind m f = Inr y"
  obtains x where "m = Inr x" and "f x = Inr y"
  using assms by (cases m) (simp_all add: ebind_def)

lemma ex_conti_get:
  "conti_get (conti_dict ex_gui) ''Norm'' = Inr 2"
  "conti_get (conti_dict ex_gui) ''piv_wv'' = Inr 2000"
  "conti_get (conti_dict ex_gui) ''tilt'' = Inr 1"
  "conti_has (conti_dict ex_gui) ''piv_wv2'' = Inr False"
  "conti_get (conti_dict ex_gui) ''piv_wv2'' = Inl KeyError"
  by (simp_all add: ex_gui_def conti_get_def conti_has_def dict_get_def dict_has_def)

lemma ex_conti_get_tilt2:
  "conti_get (conti_dict ex_gui_tilt2) ''Norm'' = Inr 2"
  "conti_get (conti_dict ex_gui_tilt2) ''piv_wv'' = Inr 2000"
  "conti_get (conti_dict ex_gui_tilt2) ''tilt'' = Inr 1"
  "conti_has (conti_dict ex_gui_tilt2) ''piv_wv2'' = Inr True"
  "conti_get (conti_dict ex_gui_tilt2) ''piv_wv2'' = Inr 1850"
  "conti_get (conti_dict ex_gui_tilt2) ''tilt2'' = Inr 0"
  by (simp_all add: ex_gui_tilt2_def ex_gui_def conti_get_def conti_has_def dict_get_def dict_has_def)

lemma ex_gui_fields:
  "base_continuum ex_gui = Some [1, 1, 1, 1, 1, 1, 1, 1]"
  "dispersion (continuum ex_gui) = ex_wave"
  "flux (continuum ex_gui) = [1, 1, 1, 1, 1, 1, 1, 1]"
  "lls_model ex_gui = None"
  "base_continuum ex_gui_tilt2 = Some [1, 1, 1, 1, 1, 1, 1, 1]"
  "dispersion (continuum ex_gui_tilt2) = ex_wave"
  "flux (continuum ex_gui_tilt2) = [1, 1, 1, 1, 1, 1, 1, 1]"
  "lls_model ex_gui_tilt2 = None"
  by (simp_all add: ex_gui_tilt2_def ex_gui_def ex_ones_def from_tuple_def)

lemma ex_update_conti_returns:
  "\<exists>g'. update_conti ex_X ex_gui = Inr g'"
  using update_conti_single [of ex_gui _ 2 2000 1 ex_X]
  by (simp add: ex_conti_get ex_gui_fields ex_wave_def refresh_full_model_def)

lemma ex_update_conti_tilt2_returns:
  "\<exists>g'. update_conti ex_X ex_gui_tilt2 = Inr g'"
  using update_conti_double [of ex_gui_tilt2 _ 2 1850 0 2000 1 ex_X]
  by (simp add: ex_conti_get_tilt2 ex_gui_fields ex_wave_def refresh_full_model_def)

text \<open>
  C3. Whenever \<open>update_conti\<close> returns, on a base continuum that has one value per
  pixel and with pivots other than zero: if \<open>conti_dict\<close> has no key \<open>piv_wv2\<close>, the
  continuum flux is \<open>base_continuum * Norm * (lambda / piv_wv) ** tilt\<close> at every pixel;
  if it has the key, the pixels with \<open>lambda < piv_wv2\<close> get
  \<open>base_continuum * Norm * (lambda / piv_wv2) ** tilt2\<close> and all others
  \<open>base_continuum * Norm * (lambda / piv_wv) ** tilt\<close>. The wavelengths are unchanged.
  (With a pivot of zero numpy divides by zero, which gives \<open>inf\<close> or \<open>nan\<close>: no real
  number stands for that quotient.)
\<close>

theorem update_conti_flux:
  assumes ok: "update_conti X g = Inr g'"
    and base: "base_continuum g = Some base"
    and len: "length base = length (dispersion (continuum g))"
    and pivot: "conti_get (conti_dict g) ''piv_wv'' \<noteq> Inr 0"
    and pivot2: "conti_get (conti_dict g) ''piv_wv2'' \<noteq> Inr 0"
  shows "\<exists>Norm piv_wv tilt.
           conti_get (conti_dict g) ''Norm'' = Inr Norm
         \<and> conti_get (conti_dict g) ''piv_wv'' = Inr piv_wv
         \<and> conti_get (conti_dict g) ''tilt'' = Inr tilt
         \<and> dispersion (continuum g') = dispersion (continuum g)
         \<and> (conti_has (conti_dict g) ''piv_wv2'' = Inr False \<longrightarrow>
              flux (continuum g')
                = map2 (\<lambda>b w. b * Norm * np_power X (w / piv_wv) tilt)
                    base (dispersion (continuum g)))
         \<and> (conti_has (conti_dict g) ''piv_wv2'' = Inr True \<longrightarrow>
              (\<exists>piv_wv2 tilt2.
                 conti_get (conti_dict g) ''piv_wv2'' = Inr piv_wv2
               \<and> conti_get (conti_dict g) ''tilt2'' = Inr tilt2
               \<and> flux (continuum g')
                   = map2 (\<lambda>b w. if w < piv_wv2
                                 then b * Norm * np_power X (w / piv_wv2) tilt2
                                 else b * Norm * np_power X (w / piv_wv) tilt)
                       base (dispersion (continuum g))))"
proof -
  let ?wave = "dispersion (continuum g)"
  from ok base have ex: "\<exists>Norm dt piv_wv tilt.
      conti_get (conti_dict g) ''Norm'' = Inr Norm
    \<and> conti_has (conti_dict g) ''piv_wv2'' = Inr dt
    \<and> conti_get (conti_dict g) ''piv_wv'' = Inr piv_wv
    \<and> conti_get (conti_dict g) ''tilt'' = Inr tilt
    \<and> (dt \<longrightarrow> (\<exists>piv_wv2 tilt2.
            conti_get (conti_dict g) ''piv_wv2'' = Inr piv_wv2
          \<and> conti_get (conti_dict g) ''tilt2'' = Inr tilt2
          \<and> length (flux (continuum g)) = length ?wave))"
    unfolding update_conti_def Let_def
    apply (simp only: option.case)
    apply (simp only: ebind_Inr_iff)
    apply (elim exE conjE)
    subgoal for Norm dt
      apply (cases dt)
       apply (simp only: if_True ebind_Inr_iff)
       apply (elim exE conjE)
       apply (auto simp add: np_mask_set_def length_mask_assign split: if_splits)[1]
      apply (simp only: if_False ebind_Inr_iff)
      apply (elim exE conjE)
      apply auto
      done
    done
  then obtain Norm dt piv_wv tilt where
    n: "conti_get (conti_dict g) ''Norm'' = Inr Norm"
    and h: "conti_has (conti_dict g) ''piv_wv2'' = Inr dt"
    and p: "conti_get (conti_dict g) ''piv_wv'' = Inr piv_wv"
    and t: "conti_get (conti_dict g) ''tilt'' = Inr tilt"
    and d: "dt \<longrightarrow> (\<exists>piv_wv2 tilt2.
            conti_get (conti_dict g) ''piv_wv2'' = Inr piv_wv2
          \<and> conti_get (conti_dict g) ''tilt2'' = Inr tilt2
          \<and> length (flux (continuum g)) = length ?wave)"
    by blast
  show ?thesis
  proof (cases dt)
    case False
    from update_conti_single [OF base n _ p t len, of X] h False ok
    have "refresh_full_model (g\<lparr>continuum := (continuum g)\<lparr>flux :=
             map2 (\<lambda>b w. b * Norm * np_power X (w / piv_wv) tilt) base ?wave\<rparr>\<rparr>) = Inr g'"
      by simp
    from refresh_continuum [OF this] n p t h False show ?thesis by simp
  next
    case True
    with d obtain piv_wv2 tilt2 where
      p2: "conti_get (conti_dict g) ''piv_wv2'' = Inr piv_wv2"
      and t2: "conti_get (conti_dict g) ''tilt2'' = Inr tilt2"
      and len0: "length (flux (continuum g)) = length ?wave"
      by blast
    from update_conti_double [OF base n _ p2 t2 p t len len0, of X] h True ok
    have "refresh_full_model (g\<lparr>continuum := (continuum g)\<lparr>flux :=
             map2 (\<lambda>b w. if w < piv_wv2 then b * Norm * np_power X (w / piv_wv2) tilt2
                           else b * Norm * np_power X (w / piv_wv) tilt) base ?wave\<rparr>\<rparr>) = Inr g'"
      by simp
    from refresh_continuum [OF this] n p t h True p2 t2 show ?thesis by simp
  qed
qed

theorem update_conti_flux_witness:
  "flux (continuum (projr (update_conti ex_X ex_gui)))
     = [1.7, 1.8, 1.9, 2, 2.1, 2.2, 2.3, 2.4]
   \<and> flux (continuum (projr (update_conti ex_X ex_gui_tilt2)))
     = [2, 2, 1.9, 2, 2.1, 2.2, 2.3, 2.4]"
proof -
  from ex_update_conti_returns obtain g1 where
    ok1: "update_conti ex_X ex_gui = Inr g1" by blast
  from ex_update_conti_tilt2_returns obtain g2 where
    ok2: "update_conti ex_X ex_gui_tilt2 = Inr g2" by blast
  have len1: "length [1, 1, 1, 1, 1, 1, 1, 1 :: real] = length (dispersion (continuum ex_gui))"
    by (simp add: ex_gui_fields ex_wave_def)
  have len2: "length [1, 1, 1, 1, 1, 1, 1, 1 :: real] = length (dispersion (continuum ex_gui_tilt2))"
    by (simp add: ex_gui_fields ex_wave_def)
  have p1: "conti_get (conti_dict ex_gui) ''piv_wv'' \<noteq> Inr 0"
    "conti_get (conti_dict ex_gui) ''piv_wv2'' \<noteq> Inr 0"
    by (simp_all add: ex_conti_get)
  have p2: "conti_get (conti_dict ex_gui_tilt2) ''piv_wv'' \<noteq> Inr 0"
    "conti_get (conti_dict ex_gui_tilt2) ''piv_wv2'' \<noteq> Inr 0"
    by (simp_all add: ex_conti_get_tilt2)
  from update_conti_flux [OF ok1 ex_gui_fields(1) len1 p1]
  have a: "flux (continuum g1) = [1.7, 1.8, 1.9, 2, 2.1, 2.2, 2.3, 2.4]"
    by (simp add: ex_conti_get ex_gui_fields ex_wave_def ex_X_def)
  from update_conti_flux [OF ok2 ex_gui_fields(5) len2 p2]
  have b: "flux (continuum g2) = [2, 2, 1.9, 2, 2.1, 2.2, 2.3, 2.4]"
    by (simp add: ex_conti_get_tilt2 ex_gui_fields ex_wave_def ex_X_def)
  from a b show ?thesis by (simp add: ok1 ok2)
qed

section \<open>The absorption model\<close>

lemma refresh_inv:
  assumes "refresh_full_model g = Inr g'"
  shows "full_model_inv g' \<and> lls_model g' = lls_model g \<and> continuum g' = continuum g"
  using assms
  by (cases "lls_model g") (auto simp: refresh_full_model_def full_model_inv_def ebind_Inr_iff)

lemma update_conti_refresh:
  assumes ok: "update_conti X g = Inr g'"
  shows "\<exists>c. refresh_full_model (g\<lparr>continuum := c\<rparr>) = Inr g'"
proof (cases "base_continuum g")
  case None
  with ok show ?thesis by (simp add: update_conti_def)
next
  case (Some base)
  with ok show ?thesis
    unfolding update_conti_def Let_def
    apply (simp only: option.case)
    apply (simp only: ebind_Inr_iff)
    apply (elim exE conjE)
    subgoal for Norm dt
      apply (cases dt)
       apply (simp only: if_True ebind_Inr_iff)
       apply (elim exE conjE)
       apply blast
      apply (simp only: if_False ebind_Inr_iff)
      apply (elim exE conjE)
      apply blast
      done
    done
qed

lemma update_model_inv:
  assumes ok: "update_model X g = Inr g'"
  shows "full_model_inv g' \<and> (all_abssys g \<noteq> [] \<longrightarrow> lls_model g' \<noteq> None \<and> model_shown g')
         \<and> continuum g' = continuum g"
proof (cases "all_abssys g = []")
  case True
  with ok show ?thesis by (auto simp: update_model_def full_model_inv_def)
next
  case False
  with ok show ?thesis
    unfolding update_model_def Let_def
    apply (simp only: length_0_conv if_False)
    apply (simp only: ebind_Inr_iff)
    apply (elim exE conjE)
    apply (auto simp: full_model_inv_def)
    done
qed

lemma ex_exp: "exp (- ln 4) = (1/4 :: real)" "exp (- ln 2) = (1/2 :: real)"
  by (simp_all add: exp_minus)

lemma ex_sys_fields: "zabs ex_sys = 1" "lines ex_forest = [\<lparr>wrest = 1215.67, attrib_z = 0.727, attrib_N = 10 powr 13, attrib_b = 20\<rparr>]"
  by (simp_all add: ex_sys_def new_lls_def ex_forest_def)

lemma ex_tau_sys: "ex_tau ex_wave [ex_sys] sk = [ln 4, ln 4, ln 4, 0, 0, 0, 0, 0]"
  by (simp add: ex_tau_def ex_wave_def ex_sys_fields)

lemma ex_voigt_forest: "ex_voigt ex_wave (lines ex_forest) sk = [0, 0, 0, 0, ln 2, 0, 0, 0]"
  by (simp add: ex_voigt_def ex_wave_def ex_sys_fields)

lemma ex_gui_sys_fields:
  "all_abssys ex_gui_sys = [ex_sys]" "all_forest ex_gui_sys = [ex_forest]"
  "skip_wveval ex_gui_sys = True" "dispersion (full_model ex_gui_sys) = ex_wave"
  "smooth ex_gui_sys = None" "flux (continuum ex_gui_sys) = [1, 1, 1, 1, 1, 1, 1, 1]"
  "spec ex_gui_sys = ex_spec" "lls_model ex_gui_sys = None"
  "tau_multi_lls ex_X = ex_tau" "voigt_from_abslines ex_X = ex_voigt"
  by (simp_all add: ex_gui_sys_def ex_gui_def ex_ones_def from_tuple_def ex_X_def)

lemma ex_model_grid: "model_grid ex_X ex_gui_sys = Inr ex_wave"
  by (simp add: model_grid_def ex_gui_sys_fields)

lemma ex_all_tau: "all_tau_model ex_X ex_gui_sys ex_wave = Inr [ln 4, ln 4, ln 4, 0, ln 2, 0, 0, 0]"
  by (simp add: all_tau_model_def ex_gui_sys_fields ex_tau_sys ex_voigt_forest np_iadd_def ebind_def)

lemma ex_smooth_flux: "smooth_flux ex_X ex_gui_sys wa1 fl = fl"
  by (simp add: smooth_flux_def ex_gui_sys_fields py2_gt_def)

lemma ex_over: "over_absorbed [1/4, 1/4, 1/4, 1, 1/2, 1, 1, 1] [1/4, 1/4, 1/4, 1, 1/2, 1, 1, 1] ex_spec = Inr [2, 4]"
  by (simp add: over_absorbed_def ex_spec_def np_bin_def ebind_def np_where_def)

lemma ex_update_model:
  "update_model ex_X ex_gui_sys
     = Inr (ex_gui_sys\<lparr>lls_model := Some [1/4, 1/4, 1/4, 1, 1/2, 1, 1, 1],
                       full_model := (full_model ex_gui_sys)\<lparr>flux := [1/4, 1/4, 1/4, 1, 1/2, 1, 1, 1]\<rparr>,
                       bad_model := [2, 4], model_shown := True\<rparr>)"
  by (simp add: update_model_def ex_gui_sys_fields ex_model_grid ex_all_tau ex_smooth_flux
      unsmoothed_flux_def ex_exp np_bin_def ex_over Let_def)

lemma ex_update_conti_sys:
  "update_conti ex_X (ex_gui_sys\<lparr>lls_model := Some [1/4, 1/4, 1/4, 1, 1/2, 1, 1, 1]\<rparr>)
     = Inr (ex_gui_sys\<lparr>lls_model := Some [1/4, 1/4, 1/4, 1, 1/2, 1, 1, 1],
             continuum := (continuum ex_gui_sys)\<lparr>flux := [1.7, 1.8, 1.9, 2, 2.1, 2.2, 2.3, 2.4]\<rparr>,
             full_model := (full_model ex_gui_sys)\<lparr>flux :=
                [17/40, 9/20, 19/40, 2, 21/20, 11/5, 23/10, 12/5]\<rparr>\<rparr>)"
  using update_conti_single [of "ex_gui_sys\<lparr>lls_model := Some [1/4, 1/4, 1/4, 1, 1/2, 1, 1, 1]\<rparr>"
      "[1, 1, 1, 1, 1, 1, 1, 1]" 2 2000 1 ex_X]
  by (simp add: ex_gui_sys_def ex_gui_def ex_ones_def from_tuple_def ex_wave_def conti_get_def
      conti_has_def dict_get_def dict_has_def refresh_full_model_def np_bin_def ex_X_def)

text \<open>
  C9. \<open>full_model.flux = lls_model * continuum.flux\<close> holds after each of the two
  operations that change the model. When \<open>update_model\<close> returns, the invariant holds,
  and with at least one absorber system there is an absorption model and the full model
  is the one displayed. When \<open>update_conti\<close> returns (pivots other than zero, where numpy
  would divide by zero), the invariant holds for the absorption model it found, so
  whenever \<open>lls_model\<close> is not \<open>None\<close> the full model is the product with the new continuum.
\<close>

theorem full_model_is_product:
  "(update_model X g = Inr g' \<longrightarrow>
      full_model_inv g' \<and> (all_abssys g \<noteq> [] \<longrightarrow> lls_model g' \<noteq> None \<and> model_shown g'))
   \<and> (update_conti X g = Inr g'' \<longrightarrow>
      conti_get (conti_dict g) ''piv_wv'' \<noteq> Inr 0 \<longrightarrow>
      conti_get (conti_dict g) ''piv_wv2'' \<noteq> Inr 0 \<longrightarrow>
      full_model_inv g'' \<and> lls_model g'' = lls_model g
      \<and> (\<forall>m. lls_model g = Some m \<longrightarrow>
             np_bin (*) m (flux (continuum g'')) = Inr (flux (full_model g''))))"
proof -
  have a: "full_model_inv g' \<and> (all_abssys g \<noteq> [] \<longrightarrow> lls_model g' \<noteq> None \<and> model_shown g')"
    if "update_model X g = Inr g'"
    using update_model_inv [OF that] by simp
  have b: "full_model_inv g'' \<and> lls_model g'' = lls_model g
      \<and> (\<forall>m. lls_model g = Some m \<longrightarrow>
             np_bin (*) m (flux (continuum g'')) = Inr (flux (full_model g'')))"
    if "update_conti X g = Inr g''"
  proof -
    from update_conti_refresh [OF that] obtain c where
      "refresh_full_model (g\<lparr>continuum := c\<rparr>) = Inr g''" by blast
    from refresh_inv [OF this] show ?thesis by (auto simp: full_model_inv_def)
  qed
  from a b show ?thesis by blast
qed

theorem full_model_is_product_witness:
  "full_model_inv (projr (update_model ex_X ex_gui_sys))
   \<and> lls_model (projr (update_model ex_X ex_gui_sys)) \<noteq> None
   \<and> model_shown (projr (update_model ex_X ex_gui_sys))
   \<and> full_model_inv (projr (update_conti ex_X
         (ex_gui_sys\<lparr>lls_model := Some [1/4, 1/4, 1/4, 1, 1/2, 1, 1, 1]\<rparr>)))
   \<and> flux (full_model (projr (update_conti ex_X
         (ex_gui_sys\<lparr>lls_model := Some [1/4, 1/4, 1/4, 1, 1/2, 1, 1, 1]\<rparr>))))
       = [17/40, 9/20, 19/40, 2, 21/20, 11/5, 23/10, 12/5]"
proof -
  let ?g = "ex_gui_sys\<lparr>lls_model := Some [1/4, 1/4, 1/4, 1, 1/2, 1, 1, 1]\<rparr>"
  have ne: "all_abssys ex_gui_sys \<noteq> []" by (simp add: ex_gui_sys_fields)
  have p: "conti_get (conti_dict ?g) ''piv_wv'' \<noteq> Inr 0"
    "conti_get (conti_dict ?g) ''piv_wv2'' \<noteq> Inr 0"
    by (simp_all add: ex_gui_sys_def ex_conti_get)
  note m = full_model_is_product [THEN conjunct1, rule_format, OF ex_update_model]
  note c = full_model_is_product [THEN conjunct2, rule_format, OF ex_update_conti_sys p]
  from m ne have "full_model_inv (projr (update_model ex_X ex_gui_sys))
   \<and> lls_model (projr (update_model ex_X ex_gui_sys)) \<noteq> None
   \<and> model_shown (projr (update_model ex_X ex_gui_sys))"
    by (simp only: ex_update_model sum.sel simp_thms)
  moreover from c have "full_model_inv (projr (update_conti ex_X ?g))"
    by (simp only: ex_update_conti_sys sum.sel simp_thms)
  moreover have "flux (full_model (projr (update_conti ex_X ?g)))
       = [17/40, 9/20, 19/40, 2, 21/20, 11/5, 23/10, 12/5]"
    by (simp add: ex_update_conti_sys)
  ultimately show ?thesis by blast
qed

lemma forest_loop_sum:
  assumes "\<forall>f \<in> set fs. length (voigt_from_abslines X wa1 (lines f) sk) = length tau0"
  shows "forest_loop X sk wa1 fs tau0 =
           Inr (map (\<lambda>i. tau0 ! i + (\<Sum>f\<leftarrow>fs. voigt_from_abslines X wa1 (lines f) sk ! i))
                  [0..<length tau0])"
  using assms
proof (induction fs arbitrary: tau0)
  case Nil
  show ?case by (simp add: map_nth)
next
  case (Cons f fs)
  let ?v = "voigt_from_abslines X wa1 (lines f) sk"
  have l: "length ?v = length tau0" using Cons.prems by simp
  then have step: "np_iadd tau0 ?v = Inr (map2 (+) tau0 ?v)"
    by (simp add: np_iadd_def)
  have "forest_loop X sk wa1 fs (map2 (+) tau0 ?v) =
           Inr (map (\<lambda>i. map2 (+) tau0 ?v ! i + (\<Sum>f\<leftarrow>fs. voigt_from_abslines X wa1 (lines f) sk ! i))
                  [0..<length (map2 (+) tau0 ?v)])"
    using Cons.prems l by (intro Cons.IH) simp
  then show ?case
    using l by (simp add: step add.assoc)
qed

text \<open>
  C2. The library functions give one optical depth per wavelength. With no absorber
  system, \<open>update_model\<close> sets \<open>lls_model\<close> and the displayed model to \<open>None\<close> and
  changes nothing else. With at least one, whenever it returns: the total optical depth
  is, at every point of the wavelength grid, the optical depth of the systems
  (\<open>tau_multi_lls\<close>) plus the sum of the Voigt optical depths of all forest systems;
  the flux before smoothing is \<open>exp (- tau)\<close>; and \<open>lls_model\<close> is that flux, smoothed and
  interpolated back.
\<close>

theorem update_model_optical_depth:
  assumes grid: "\<forall>wave. length (tau_multi_lls X wave (all_abssys g) (skip_wveval g)) = length wave
                 \<and> (\<forall>f \<in> set (all_forest g).
                       length (voigt_from_abslines X wave (lines f) (skip_wveval g)) = length wave)"
  shows "(all_abssys g = [] \<longrightarrow>
            update_model X g = Inr (g\<lparr>lls_model := None, model_shown := False\<rparr>))
       \<and> (all_abssys g \<noteq> [] \<longrightarrow> update_model X g = Inr g' \<longrightarrow>
            (\<exists>wa1 tau.
               model_grid X g = Inr wa1
             \<and> tau = map (\<lambda>i. tau_multi_lls X wa1 (all_abssys g) (skip_wveval g) ! i
                           + (\<Sum>f\<leftarrow>all_forest g.
                                voigt_from_abslines X wa1 (lines f) (skip_wveval g) ! i))
                        [0..<length wa1]
             \<and> all_tau_model X g wa1 = Inr tau
             \<and> unsmoothed_flux tau = map (\<lambda>t. exp (- t)) tau
             \<and> lls_model g' = Some (smooth_flux X g wa1 (unsmoothed_flux tau))))"
proof -
  have e: "update_model X g = Inr (g\<lparr>lls_model := None, model_shown := False\<rparr>)"
    if "all_abssys g = []"
    using that by (simp add: update_model_def)
  have n: "\<exists>wa1 tau.
               model_grid X g = Inr wa1
             \<and> tau = map (\<lambda>i. tau_multi_lls X wa1 (all_abssys g) (skip_wveval g) ! i
                           + (\<Sum>f\<leftarrow>all_forest g.
                                voigt_from_abslines X wa1 (lines f) (skip_wveval g) ! i))
                        [0..<length wa1]
             \<and> all_tau_model X g wa1 = Inr tau
             \<and> unsmoothed_flux tau = map (\<lambda>t. exp (- t)) tau
             \<and> lls_model g' = Some (smooth_flux X g wa1 (unsmoothed_flux tau))"
    if ne: "all_abssys g \<noteq> []" and ok: "update_model X g = Inr g'"
  proof -
    from ok ne obtain wa1 tau where
      grid1: "model_grid X g = Inr wa1" and tau: "all_tau_model X g wa1 = Inr tau"
      and lls: "lls_model g' = Some (smooth_flux X g wa1 (unsmoothed_flux tau))"
      unfolding update_model_def Let_def
      apply (simp only: length_0_conv if_False)
      apply (simp only: ebind_Inr_iff)
      apply (elim exE conjE)
      apply auto
      done
    let ?t0 = "tau_multi_lls X wa1 (all_abssys g) (skip_wveval g)"
    have "all_tau_model X g wa1 =
            Inr (map (\<lambda>i. ?t0 ! i + (\<Sum>f\<leftarrow>all_forest g.
                                  voigt_from_abslines X wa1 (lines f) (skip_wveval g) ! i))
                   [0..<length ?t0])"
      unfolding all_tau_model_def using grid by (intro forest_loop_sum) simp
    with tau grid have "tau = map (\<lambda>i. ?t0 ! i + (\<Sum>f\<leftarrow>all_forest g.
                                  voigt_from_abslines X wa1 (lines f) (skip_wveval g) ! i))
                   [0..<length wa1]"
      by simp
    with grid1 tau lls show ?thesis
      by (simp add: unsmoothed_flux_def)
  qed
  from e n show ?thesis by blast
qed

theorem update_model_optical_depth_witness:
  "update_model ex_X ex_gui = Inr (ex_gui\<lparr>lls_model := None, model_shown := False\<rparr>)
   \<and> all_tau_model ex_X ex_gui_sys ex_wave = Inr [ln 4, ln 4, ln 4, 0, ln 2, 0, 0, 0]
   \<and> lls_model (projr (update_model ex_X ex_gui_sys)) = Some [1/4, 1/4, 1/4, 1, 1/2, 1, 1, 1]"
proof -
  let ?r = "ex_gui_sys\<lparr>lls_model := Some [1/4, 1/4, 1/4, 1, 1/2, 1, 1, 1],
                       full_model := (full_model ex_gui_sys)\<lparr>flux := [1/4, 1/4, 1/4, 1, 1/2, 1, 1, 1]\<rparr>,
                       bad_model := [2, 4], model_shown := True\<rparr>"
  have grid0: "\<forall>wave. length (tau_multi_lls ex_X wave (all_abssys ex_gui) (skip_wveval ex_gui))
                    = length wave
                 \<and> (\<forall>f \<in> set (all_forest ex_gui).
                       length (voigt_from_abslines ex_X wave (lines f) (skip_wveval ex_gui))
                         = length wave)"
    by (simp add: ex_X_def ex_tau_def ex_gui_def)
  have e: "all_abssys ex_gui = []" by (simp add: ex_gui_def)
  note a = update_model_optical_depth [OF grid0, THEN conjunct1, rule_format, OF e]
  have grid: "\<forall>wave. length (tau_multi_lls ex_X wave (all_abssys ex_gui_sys) (skip_wveval ex_gui_sys))
                    = length wave
                 \<and> (\<forall>f \<in> set (all_forest ex_gui_sys).
                       length (voigt_from_abslines ex_X wave (lines f) (skip_wveval ex_gui_sys))
                         = length wave)"
    by (simp add: ex_gui_sys_fields ex_tau_def ex_voigt_def)
  have ne: "all_abssys ex_gui_sys \<noteq> []" by (simp add: ex_gui_sys_fields)
  from update_model_optical_depth [OF grid, of ?r, THEN conjunct2, rule_format, OF ne ex_update_model]
  obtain wa1 tau where
    g: "model_grid ex_X ex_gui_sys = Inr wa1"
    and t: "all_tau_model ex_X ex_gui_sys wa1 = Inr tau"
    and l: "lls_model ?r = Some (smooth_flux ex_X ex_gui_sys wa1 (unsmoothed_flux tau))"
    by blast
  from g have w: "wa1 = ex_wave" by (simp add: ex_model_grid)
  from t have tau: "tau = [ln 4, ln 4, ln 4, 0, ln 2, 0, 0, 0]"
    unfolding w by (simp add: ex_all_tau)
  have "lls_model (projr (update_model ex_X ex_gui_sys)) = lls_model ?r"
    by (simp only: ex_update_model sum.sel)
  also have "\<dots> = Some [1/4, 1/4, 1/4, 1, 1/2, 1, 1, 1]"
    by simp
  finally have c: "lls_model (projr (update_model ex_X ex_gui_sys))
                     = Some [1/4, 1/4, 1/4, 1, 1/2, 1, 1, 1]" .
  from a ex_all_tau c show ?thesis by (simp only: simp_thms)
qed

section \<open>The automatic search for a partial Lyman limit system\<close>

lemma plls_zmin_cases:
  "plls_zmin g zp =
     (if \<exists>s \<in> set (all_abssys g). zabs s > zp
      then Inr (Min (set (map zabs (filter (\<lambda>lls. zabs lls > zp) (all_abssys g)))) - 0.01)
      else case zqso g of None \<Rightarrow> Inl TypeError | Some q \<Rightarrow> Inr (q + 0.01))"
proof (cases "\<exists>s \<in> set (all_abssys g). zabs s > zp")
  case True
  then have "filter (\<lambda>lls. zabs lls > zp) (all_abssys g) \<noteq> []"
    by (simp add: filter_empty_conv)
  moreover from True have "all_abssys g \<noteq> []" by auto
  ultimately show ?thesis using True by (simp add: plls_zmin_def Let_def)
next
  case False
  then have "filter (\<lambda>lls. zabs lls > zp) (all_abssys g) = []"
    by (simp add: filter_empty_conv)
  then show ?thesis using False by (simp add: plls_zmin_def Let_def)
qed


lemma length_np_roll [simp]: "length (np_roll xs k) = length xs"
  by (simp add: np_roll_def Let_def)




lemma auto_plls_stages:
  assumes ok: "auto_plls X g x y = Inr g'"
  shows "\<exists>ximn c zmin. np_argmin (map (\<lambda>w. \<bar>w - x\<bar>) (dispersion (spec g))) = Inr ximn
          \<and> np_index (flux (plls_conti g)) ximn = Inr c
          \<and> plls_zmin g (x / 911.7 - 1) = Inr zmin"
  using ok unfolding auto_plls_def
  by (auto simp: plls_click_def Let_def ebind_Inr_iff toy_plls_def split: prod.splits)














lemma auto_plls_chain:
  assumes ok: "auto_plls X g x y = Inr g'"
  shows "\<exists>ximn nhi lls_flux zmin apix nroll roll_flux flux_pad sig_pad conti_pad bad.
           plls_click X g x y = Inr (ximn, nhi, toy_plls X (x / 911.7 - 1) nhi, lls_flux)
         \<and> plls_zmin g (x / 911.7 - 1) = Inr zmin
         \<and> plls_window (dispersion (spec g)) (x / 911.7 - 1) zmin = Inr (apix, nroll)
         \<and> plls_pads g lls_flux apix nroll = Inr (roll_flux, flux_pad, sig_pad, conti_pad)
         \<and> plls_bad roll_flux flux_pad sig_pad conti_pad (nat nroll) = Inr bad
         \<and> plls_decide X g ximn nhi bad = Inr g'"
proof -
  from ok obtain ximn nhi plls lls_flux where
    c: "plls_click X g x y = Inr (ximn, nhi, plls, lls_flux)"
    and r1: "ebind (plls_zmin g (zabs plls)) (\<lambda>zmin.
     ebind (plls_window (dispersion (spec g)) (zabs plls) zmin) (\<lambda>(apix, nroll).
     ebind (plls_pads g lls_flux apix nroll) (\<lambda>(roll_flux, flux_pad, sig_pad, conti_pad).
     ebind (plls_bad roll_flux flux_pad sig_pad conti_pad (nat nroll)) (\<lambda>bad.
     plls_decide X g ximn nhi bad)))) = Inr g'"
    unfolding auto_plls_def by (auto simp: ebind_Inr_iff)
  from c have p: "plls = toy_plls X (x / 911.7 - 1) nhi"
    unfolding plls_click_def Let_def by (auto simp: ebind_Inr_iff)
  then have z: "zabs plls = x / 911.7 - 1" by (simp add: toy_plls_def)
  from r1 obtain zmin apix nroll where
    zm: "plls_zmin g (zabs plls) = Inr zmin"
    and w: "plls_window (dispersion (spec g)) (zabs plls) zmin = Inr (apix, nroll)"
    and r2: "ebind (plls_pads g lls_flux apix nroll) (\<lambda>(roll_flux, flux_pad, sig_pad, conti_pad).
     ebind (plls_bad roll_flux flux_pad sig_pad conti_pad (nat nroll)) (\<lambda>bad.
     plls_decide X g ximn nhi bad)) = Inr g'"
    by (auto simp: ebind_Inr_iff)
  from r2 obtain roll_flux flux_pad sig_pad conti_pad bad where
    pd: "plls_pads g lls_flux apix nroll = Inr (roll_flux, flux_pad, sig_pad, conti_pad)"
    and b: "plls_bad roll_flux flux_pad sig_pad conti_pad (nat nroll) = Inr bad"
    and d: "plls_decide X g ximn nhi bad = Inr g'"
    by (auto simp: ebind_Inr_iff)
  from c [unfolded p] zm [unfolded z] w [unfolded z] pd b d show ?thesis by blast
qed

lemma ex_gui_spec:
  "spec ex_gui = ex_spec" "dispersion ex_spec = ex_wave"
  "flux ex_spec = [0.2, 0.2, 1, 0.3, 1, 1, 1, 1]"
  "sig ex_spec = [0.1, 0.1, 0.1, 0.1, 0.1, 0.1, 0.1, 0.1]"
  "plls_conti ex_gui = ex_ones" "flux ex_ones = [1, 1, 1, 1, 1, 1, 1, 1]"
  "all_abssys ex_gui = []" "zqso ex_gui = Some 1.15" "count_lls ex_gui = 0"
  by (simp_all add: ex_gui_def ex_spec_def plls_conti_def ex_ones_def from_tuple_def)

lemma ex_argmin_click: "np_argmin (map (\<lambda>w. \<bar>w - 1823.4\<bar>) ex_wave) = Inr 1"
  by (simp add: np_argmin_def ex_wave_def)

lemma ex_click:
  "plls_click ex_X ex_gui 1823.4 0.5
     = Inr (1, ex_nhi, toy_plls ex_X (1823.4 / 911.7 - 1) ex_nhi, [1/4, 1/4, 1/4, 1, 1, 1, 1, 1])"
proof -
  have t: "tau_multi_lls ex_X ex_wave [toy_plls ex_X 1 nhi] False
             = [ln 4, ln 4, ln 4, 0, 0, 0, 0, 0]" for nhi
    by (simp add: ex_X_def ex_tau_def ex_wave_def toy_plls_def)
  have n: "1729 / 100 + np_log10 ex_X (- np_log ex_X (1 / 2)) = ex_nhi"
    by (simp add: ex_X_def ex_nhi_def)
  have c: "convolve_psf ex_X = (\<lambda>xs fwhm. xs)" by (simp add: ex_X_def)
  show ?thesis
    unfolding plls_click_def Let_def ex_gui_spec ex_argmin_click
    by (simp add: np_index_def n t c ex_exp)
qed

lemma ex_zmin: "plls_zmin ex_gui (1823.4 / 911.7 - 1) = Inr 1.16"
  by (simp add: plls_zmin_def ex_gui_spec)

lemma ex_window: "plls_window ex_wave (1823.4 / 911.7 - 1) 1.16 = Inr ([2, 3, 4, 5], 2)"
proof -
  have a: "np_argmin (map (\<lambda>w. \<bar>w - 911.7 * (1 + 1.16)\<bar>) ex_wave) = Inr 3"
    by (simp add: np_argmin_def ex_wave_def)
  have b: "np_argmin (map (\<lambda>w. \<bar>w - 911.7 * (1 + (1823.4 / 911.7 - 1))\<bar>) ex_wave) = Inr 1"
    by (simp add: np_argmin_def ex_wave_def)
  have p: "np_where (map2 (\<lambda>wr w. wr > 914 \<and> w < (1 + 1.16) * 1026)
             (map (\<lambda>w. w / (1 + (1823.4 / 911.7 - 1))) ex_wave) ex_wave) = [2, 3, 4, 5]"
    by (simp add: np_where_def ex_wave_def)
  show ?thesis
    unfolding plls_window_def Let_def a b p by (simp add: ex_wave_def)
qed

lemma ex_pads:
  "plls_pads ex_gui [1/4, 1/4, 1/4, 1, 1, 1, 1, 1] [2, 3, 4, 5] 2
     = Inr ([1, 1, 1/4, 1, 1, 1, 1, 1], [0.2, 0.2, 1, 0.3, 1, 1, 1, 1],
            [0.1, 0.1, 0.1, 0.1, 0.1, 0.1, 0.1, 0.1], [1, 1, 1, 1, 1, 1, 1, 1])"
proof -
  have g: "[int (Min (set [2, 3, 4, 5 :: nat])) - 2 .. int (Max (set [2, 3, 4, 5 :: nat])) + 2]
             = [0, 1, 2, 3, 4, 5, 6, 7]"
    by (simp add: upto.simps)
  show ?thesis
    unfolding plls_pads_def Let_def g ex_gui_spec
    by (simp add: np_take_def ex_wave_def numeral_2_eq_2)
qed

lemma ex_bad:
  "plls_bad [1, 1, 1/4, 1, 1, 1, 1, 1] [0.2, 0.2, 1, 0.3, 1, 1, 1, 1]
     [0.1, 0.1, 0.1, 0.1, 0.1, 0.1, 0.1, 0.1] [1, 1, 1, 1, 1, 1, 1, 1] 2 = Inr [1, 0]"
  by (simp add: plls_bad_def fits_column_def as_column_def np_roll_def Let_def upt_rec numeral_2_eq_2)


lemma ex_found_fields: "zabs ex_found = 1900 / 911.7 - 1"
  by (simp add: ex_found_def new_lls_def)

lemma ex_tau_found: "ex_tau ex_wave [ex_found] sk = [ln 4, ln 4, 0, ln 4, 0, 0, 0, 0]"
  by (simp add: ex_tau_def ex_wave_def ex_found_fields)

lemma ex_gui_added_fields:
  "all_abssys ex_gui_added = [ex_found]" "all_forest ex_gui_added = []"
  "skip_wveval ex_gui_added = True" "dispersion (full_model ex_gui_added) = ex_wave"
  "smooth ex_gui_added = None" "flux (continuum ex_gui_added) = [1, 1, 1, 1, 1, 1, 1, 1]"
  "spec ex_gui_added = ex_spec" "tau_multi_lls ex_X = ex_tau"
  by (simp_all add: ex_gui_added_def ex_gui_def ex_ones_def from_tuple_def ex_X_def)

lemma ex_update_model_found: "update_model ex_X ex_gui_added = Inr ex_gui_found"
proof -
  have grid: "model_grid ex_X ex_gui_added = Inr ex_wave"
    by (simp add: model_grid_def ex_gui_added_fields)
  have tau: "all_tau_model ex_X ex_gui_added ex_wave = Inr [ln 4, ln 4, 0, ln 4, 0, 0, 0, 0]"
    by (simp add: all_tau_model_def ex_gui_added_fields ex_tau_found)
  have sm: "smooth_flux ex_X ex_gui_added wa1 fl = fl" for wa1 fl
    by (simp add: smooth_flux_def ex_gui_added_fields py2_gt_def)
  have ov: "over_absorbed [1/4, 1/4, 1, 1/4, 1, 1, 1, 1] [1/4, 1/4, 1, 1/4, 1, 1, 1, 1] ex_spec
              = Inr []"
    by (simp add: over_absorbed_def ex_spec_def np_bin_def ebind_def np_where_def)
  show ?thesis
    by (simp add: update_model_def ex_gui_added_fields grid tau sm unsmoothed_flux_def ex_exp
        np_bin_def ov Let_def ex_gui_found_def)
qed

lemma ex_add_LLS:
  "add_LLS ex_X ex_gui (1900 / 911.7 - 1) ex_nhi 20 ''None'' True = Inr ex_gui_found"
proof -
  have "ex_gui\<lparr>count_lls := count_lls ex_gui + 1,
               all_abssys := all_abssys ex_gui @
                 [new_lls ex_X (1900 / 911.7 - 1) ex_nhi 20 ''None'' (count_lls ex_gui + 1)]\<rparr>
          = ex_gui_added"
    by (simp add: ex_gui_added_def ex_found_def ex_gui_spec)
  then show ?thesis
    unfolding add_LLS_def Let_def by (simp only: if_True ex_update_model_found)
qed

lemma ex_decide: "plls_decide ex_X ex_gui 1 ex_nhi [1, 0] = Inr ex_gui_found"
proof -
  have a: "np_argmin [1, 0] = Inr 1"
    by (simp add: np_argmin_def)
  have i: "np_index (dispersion (spec ex_gui)) (1 + 1) = Inr 1900"
    by (simp add: np_index_def ex_wave_def ex_gui_spec)
  have b: "([1, 0 :: real] ! 1 < 10) = True"
    by simp
  show ?thesis
    unfolding plls_decide_def Let_def
    by (simp only: a i ebind_Inr b if_True ex_add_LLS)
qed

lemma toy_plls_zabs: "zabs (toy_plls X z nhi) = z"
  by (simp add: toy_plls_def)

lemma ex_auto_plls: "auto_plls ex_X ex_gui 1823.4 0.5 = Inr ex_gui_found"
proof -
  have n: "nat 2 = 2" by simp
  show ?thesis
    unfolding auto_plls_def
    by (simp only: ex_click ebind_Inr prod.case toy_plls_zabs ex_zmin ex_gui_spec ex_window
        ex_pads n ex_bad ex_decide)
qed

lemma ex_auto_plls_noz: "auto_plls ex_X ex_gui_noz 1823.4 0.5 = Inl TypeError"
proof -
  have c: "plls_click ex_X ex_gui_noz 1823.4 0.5 = plls_click ex_X ex_gui 1823.4 0.5"
    by (simp add: plls_click_def ex_gui_noz_def plls_conti_def)
  have z: "plls_zmin ex_gui_noz z = Inl TypeError" for z
    by (simp add: plls_zmin_def ex_gui_noz_def ex_gui_def)
  show ?thesis
    unfolding auto_plls_def
    by (simp only: c ex_click ebind_Inr prod.case z ebind_Inl)
qed


lemma ex_click_ok: "(1823.4 :: real) \<noteq> 0" "0 \<notin> set (flux (plls_conti ex_gui))"
  "0 \<notin> set (flux (plls_conti ex_gui_noz))"
  by (simp_all add: ex_gui_spec ex_gui_noz_def plls_conti_def ex_gui_def ex_ones_def from_tuple_def)

lemma plls_click_facts:
  assumes "plls_click X g x y = Inr (ximn, nhi, plls, lls_flux)"
  shows "np_argmin (map (\<lambda>w. \<bar>w - x\<bar>) (dispersion (spec g))) = Inr ximn
       \<and> ximn < length (flux (plls_conti g))
       \<and> plls = toy_plls X (x / 911.7 - 1) nhi
       \<and> lls_flux = convolve_psf X (map (\<lambda>t. exp (- t))
                     (tau_multi_lls X (dispersion (spec g)) [plls] False)) 3"
  using assms unfolding plls_click_def Let_def
  by (auto simp: ebind_Inr_iff np_index_def split: if_splits)

text \<open>
  C10. For a click at \<open>x\<close> other than zero on a model that is nowhere zero:
  \<open>auto_plls\<close> returns only if some system already in the list lies at a redshift above
  that of the candidate, \<open>x / 911.7 - 1\<close>, or \<open>zqso\<close> is a number. When no system
  lies above and \<open>zqso\<close> is \<open>None\<close>, \<open>zmin\<close> is \<^verbatim>\<open>self.zqso + 0.01\<close>, which raises
  TypeError: \<open>auto_plls\<close> raises, and it is this TypeError that it raises whenever the
  steps before \<open>zmin\<close> have gone through.
\<close>

theorem auto_plls_needs_zmin:
  assumes click: "x \<noteq> 0"
    and model: "0 \<notin> set (flux (plls_conti g))"
  shows "(auto_plls X g x y = Inr g' \<longrightarrow>
            (\<exists>s \<in> set (all_abssys g). x / 911.7 - 1 < zabs s) \<or> zqso g \<noteq> None)
       \<and> ((\<forall>s \<in> set (all_abssys g). \<not> x / 911.7 - 1 < zabs s) \<and> zqso g = None \<longrightarrow>
            plls_zmin g (x / 911.7 - 1) = Inl TypeError
          \<and> (\<exists>e. auto_plls X g x y = Inl e)
          \<and> (\<forall>r. plls_click X g x y = Inr r \<longrightarrow> auto_plls X g x y = Inl TypeError))"
proof -
  have none: "plls_zmin g (x / 911.7 - 1) = Inl TypeError"
    if "\<forall>s \<in> set (all_abssys g). \<not> x / 911.7 - 1 < zabs s" and "zqso g = None"
    using that by (simp add: plls_zmin_cases)
  have a: "(\<exists>s \<in> set (all_abssys g). x / 911.7 - 1 < zabs s) \<or> zqso g \<noteq> None"
    if ok: "auto_plls X g x y = Inr g'"
  proof (rule ccontr)
    assume "\<not> ((\<exists>s \<in> set (all_abssys g). x / 911.7 - 1 < zabs s) \<or> zqso g \<noteq> None)"
    then have "plls_zmin g (x / 911.7 - 1) = Inl TypeError"
      by (intro none) simp_all
    moreover from auto_plls_chain [OF ok] obtain zmin where
      "plls_zmin g (x / 911.7 - 1) = Inr zmin" by blast
    ultimately show False by simp
  qed
  have b: "auto_plls X g x y = Inl TypeError"
    if z: "plls_zmin g (x / 911.7 - 1) = Inl TypeError" and c: "plls_click X g x y = Inr r" for r
  proof -
    obtain ximn nhi plls lls_flux where r: "r = (ximn, nhi, plls, lls_flux)"
      by (cases r) auto
    from plls_click_facts [OF c [unfolded r]] have "zabs plls = x / 911.7 - 1"
      by (simp add: toy_plls_def)
    with z show ?thesis
      unfolding auto_plls_def c r by simp
  qed
  have e: "\<exists>e. auto_plls X g x y = Inl e"
    if z: "plls_zmin g (x / 911.7 - 1) = Inl TypeError"
  proof (cases "auto_plls X g x y")
    case (Inl e)
    then show ?thesis by blast
  next
    case (Inr g2)
    from auto_plls_chain [OF Inr] z show ?thesis by auto
  qed
  from none a b e show ?thesis by blast
qed

theorem auto_plls_needs_zmin_witness:
  "plls_zmin ex_gui_noz (1823.4 / 911.7 - 1) = Inl TypeError
   \<and> auto_plls ex_X ex_gui_noz 1823.4 0.5 = Inl TypeError
   \<and> auto_plls ex_X ex_gui 1823.4 0.5 = Inr ex_gui_found
   \<and> zqso ex_gui = Some 1.15"
proof -
  have n: "\<forall>s \<in> set (all_abssys ex_gui_noz). \<not> 1823.4 / 911.7 - 1 < zabs s"
    "zqso ex_gui_noz = None"
    by (simp_all add: ex_gui_noz_def ex_gui_def)
  have c: "plls_click ex_X ex_gui_noz 1823.4 0.5
             = Inr (1, ex_nhi, toy_plls ex_X (1823.4 / 911.7 - 1) ex_nhi,
                    [1/4, 1/4, 1/4, 1, 1, 1, 1, 1])"
    unfolding ex_click [symmetric] by (simp add: plls_click_def ex_gui_noz_def plls_conti_def)
  note t = auto_plls_needs_zmin [OF ex_click_ok(1) ex_click_ok(3), of ex_X "0.5" ex_gui,
      THEN conjunct2, rule_format, OF conjI, OF n]
  note z = t [THEN conjunct1]
  note a = t [THEN conjunct2, THEN conjunct2, rule_format, OF c]
  from z a ex_auto_plls ex_gui_spec(8) show ?thesis by simp
qed





section \<open>Writing and reading the fit\<close>

lemma digit_char_inj: "a < 10 \<Longrightarrow> b < 10 \<Longrightarrow> digit_char a = digit_char b \<Longrightarrow> a = b"
proof -
  assume a: "a < 10" and b: "b < 10" and e: "digit_char a = digit_char b"
  from e have "of_char (char_of (48 + a) :: char) = (of_char (char_of (48 + b) :: char) :: nat)"
    by (simp add: digit_char_def)
  with a b show "a = b" by simp
qed

lemma show_nat_nonempty: "show_nat n \<noteq> []"
  by (subst show_nat.simps) simp

lemma show_nat_length1: "(length (show_nat n) = 1) = (n < 10)"
proof (cases "n < 10")
  case True
  then show ?thesis by (subst show_nat.simps) simp
next
  case False
  then have "length (show_nat n) = length (show_nat (n div 10)) + 1"
    by (subst show_nat.simps) simp
  moreover have "length (show_nat (n div 10)) \<noteq> 0"
    using show_nat_nonempty by simp
  ultimately show ?thesis using False by simp
qed

lemma show_nat_inj: "show_nat n = show_nat m \<Longrightarrow> n = m"
proof (induction n arbitrary: m rule: show_nat.induct)
  case (1 n)
  show ?case
  proof (cases "n < 10")
    case True
    with "1.prems" have m: "m < 10"
      using show_nat_length1 [of n] show_nat_length1 [of m] by simp
    from True m "1.prems" have "digit_char n = digit_char m"
      by (simp add: show_nat.simps)
    with True m show ?thesis by (rule digit_char_inj)
  next
    case False
    with "1.prems" have m: "\<not> m < 10"
      using show_nat_length1 [of n] show_nat_length1 [of m] by simp
    from False m "1.prems"
    have "show_nat (n div 10) @ [digit_char (n mod 10)] = show_nat (m div 10) @ [digit_char (m mod 10)]"
      by (simp add: show_nat.simps [of n] show_nat.simps [of m])
    then have d: "show_nat (n div 10) = show_nat (m div 10)"
      and l: "digit_char (n mod 10) = digit_char (m mod 10)"
      by simp_all
    from "1.IH" [OF False d] have "n div 10 = m div 10" .
    moreover from l have "n mod 10 = m mod 10"
      by (intro digit_char_inj) simp_all
    ultimately show ?thesis by (metis div_mult_mod_eq)
  qed
qed

lemma dict_set_fresh: "map_of d k = None \<Longrightarrow> dict_set d k v = d @ [(k, v)]"
  by (simp add: dict_set_def dict_has_def)

lemma write_lls_loop_shape:
  assumes "write_lls_loop (enumerate k syss) d = Inr d'"
    and "\<forall>kv \<in> set d. \<exists>j < k. fst kv = show_nat (j + 1)"
  shows "(\<forall>s \<in> set syss. lls_lines s \<noteq> [])
         \<and> d' = d @ map (\<lambda>(i, s). (show_nat (i + 1), lls_entry s (hd (lls_lines s))))
                      (enumerate k syss)"
  using assms
proof (induction syss arbitrary: k d)
  case Nil
  then show ?case by simp
next
  case (Cons s syss)
  from Cons.prems(1) obtain l0 ls where l: "lls_lines s = l0 # ls"
    by (cases "lls_lines s") (simp_all add: Let_def)
  have fresh: "map_of d (show_nat (k + 1)) = None"
  proof (rule ccontr)
    assume "map_of d (show_nat (k + 1)) \<noteq> None"
    then obtain v where "map_of d (show_nat (k + 1)) = Some v" by auto
    then have "(show_nat (k + 1), v) \<in> set d" by (rule map_of_SomeD)
    with Cons.prems(2) obtain j where "j < k" and "show_nat (k + 1) = show_nat (j + 1)"
      by fastforce
    then show False using show_nat_inj [of "k + 1" "j + 1"] by simp
  qed
  let ?d1 = "d @ [(show_nat (k + 1), lls_entry s l0)]"
  from Cons.prems(1) l fresh
  have step: "write_lls_loop (enumerate (Suc k) syss) ?d1 = Inr d'"
    by (simp add: Let_def dict_set_fresh)
  have keys: "\<forall>kv \<in> set ?d1. \<exists>j < Suc k. fst kv = show_nat (j + 1)"
    using Cons.prems(2) by (auto intro: less_SucI)
  from Cons.IH [OF step keys] l show ?case by simp
qed

lemma init_lls_loop_reads:
  assumes "\<forall>key \<in> set keys. \<exists>s. map_of lls key = Some (lls_entry s (hd (lls_lines s)))
                                   \<and> pick key = s"
  shows "\<exists>r. init_lls_loop X lls keys g = Inr r
           \<and> map sys4 (all_abssys r) = map sys4 (all_abssys g) @ map (\<lambda>key. written4 (pick key)) keys
           \<and> conti_dict r = conti_dict g \<and> base_continuum r = base_continuum g"
  using assms
proof (induction keys arbitrary: g)
  case Nil
  show ?case by simp
next
  case (Cons key keys)
  from Cons.prems obtain s where
    e: "map_of lls key = Some (lls_entry s (hd (lls_lines s)))" and p: "pick key = s"
    by auto
  let ?g1 = "g\<lparr>count_lls := count_lls g + 1,
               all_abssys := all_abssys g @
                 [new_lls X (zabs s) (NHI s) (attrib_b (hd (lls_lines s))) (py_strip (comment s))
                    (count_lls g + 1)]\<rparr>"
  have step: "init_lls_loop X lls (key # keys) g = init_lls_loop X lls keys ?g1"
    using e by (simp add: dict_get_def lls_entry_def entry_get_def as_float_def as_string_def
        add_LLS_def Let_def)
  from Cons.prems have "\<forall>key \<in> set keys. \<exists>s. map_of lls key = Some (lls_entry s (hd (lls_lines s)))
                                   \<and> pick key = s"
    by simp
  from Cons.IH [OF this, of ?g1] obtain r where
    r: "init_lls_loop X lls keys ?g1 = Inr r"
    and m: "map sys4 (all_abssys r) = map sys4 (all_abssys ?g1) @ map (\<lambda>key. written4 (pick key)) keys"
    and u: "conti_dict r = conti_dict ?g1" "base_continuum r = base_continuum ?g1"
    by blast
  have "init_lls_loop X lls (key # keys) g = Inr r"
    using step r by (simp only:)
  moreover have "map sys4 (all_abssys r)
      = map sys4 (all_abssys g) @ map (\<lambda>key. written4 (pick key)) (key # keys)"
    using m p by (simp add: sys4_def written4_def new_lls_def)
  moreover have "conti_dict r = conti_dict g" "base_continuum r = base_continuum g"
    using u by simp_all
  ultimately show ?case by blast
qed

lemma float_list_PFloat: "float_list (map PFloat vs) = Some vs"
  by (induction vs) simp_all

lemma as_opt_float_opt_float: "as_opt_float (opt_float v) = Inr v"
  by (cases v) (simp_all add: as_opt_float_def opt_float_def)

lemma map_enumerate_fst:
  "map (\<lambda>(i, s). h i) (enumerate k syss) = map h [k..<k + length syss]"
proof (induction syss arbitrary: k)
  case Nil
  show ?case by simp
next
  case (Cons s syss)
  have lt: "k < k + length (s # syss)" by simp
  have "[k..<k + length (s # syss)] = k # [Suc k..<k + length (s # syss)]"
    using lt by (rule upt_conv_Cons)
  moreover have "k + length (s # syss) = Suc k + length syss" by simp
  ultimately have "[k..<k + length (s # syss)] = k # [Suc k..<Suc k + length syss]"
    by (simp only:)
  with Cons.IH [of "Suc k"] show ?case by (simp only: enumerate_simps list.map prod.case)
qed

lemma enumerate_keys_distinct:
  "distinct (map (\<lambda>(i, s). show_nat (i + 1)) (enumerate k syss))"
proof -
  have "inj_on (\<lambda>i. show_nat (i + 1)) (set [k..<k + length syss])"
    by (rule inj_onI) (use show_nat_inj in fastforce)
  then show ?thesis
    unfolding map_enumerate_fst by (simp add: distinct_map)
qed

lemma write_out_doc:
  assumes w: "write_out g = Inr (g1, doc)"
  shows "\<exists>base d. base_continuum g = Some base
           \<and> doc = PDict d
           \<and> map_of d ''conti_model'' = Some (conti_dict g)
           \<and> map_of d ''conti'' = Some (PList (map PFloat base))
           \<and> map_of d ''spec_file'' = Some (PStr (filename (spec g)))
           \<and> map_of d ''smooth'' = Some (opt_float (smooth g))
           \<and> map_of d ''zqso'' = map_option PFloat (zqso g)
           \<and> map_of d ''LLS'' = Some (PDict (map (\<lambda>(i, s). (show_nat (i + 1),
                                     lls_entry s (hd (lls_lines s)))) (enumerate 0 (all_abssys g))))"
proof -
  from w obtain base where b: "base_continuum g = Some base"
    by (cases "base_continuum g") (simp_all add: write_out_def)
  from w b obtain lls where l: "write_lls_loop (enumerate 0 (all_abssys g)) [] = Inr lls"
    by (cases "write_lls_loop (enumerate 0 (all_abssys g)) []") (simp_all add: write_out_def Let_def)
  from write_lls_loop_shape [OF l]
  have lls: "lls = map (\<lambda>(i, s). (show_nat (i + 1), lls_entry s (hd (lls_lines s))))
                     (enumerate 0 (all_abssys g))"
    by simp
  show ?thesis
  proof (cases "zqso g")
    case None
    with w b l lls show ?thesis
      by (auto simp add: write_out_def Let_def dict_set_def dict_has_def)
  next
    case (Some q)
    with w b l lls show ?thesis
      by (auto simp add: write_out_def Let_def dict_set_def dict_has_def)
  qed
qed


lemma perm_keys_mset:
  assumes d: "distinct (map fst A)" and p: "mset keys = mset (map fst A)"
  shows "mset (map (\<lambda>key. h (the (map_of A key))) keys) = mset (map (\<lambda>kv. h (snd kv)) A)"
proof -
  have "mset (map (\<lambda>key. h (the (map_of A key))) keys)
          = image_mset (\<lambda>key. h (the (map_of A key))) (mset keys)"
    by simp
  also have "\<dots> = image_mset (\<lambda>key. h (the (map_of A key))) (mset (map fst A))"
    by (simp only: p)
  also have "\<dots> = mset (map (\<lambda>kv. h (the (map_of A (fst kv)))) A)"
    by (simp add: multiset.map_comp comp_def)
  also have "map (\<lambda>kv. h (the (map_of A (fst kv)))) A = map (\<lambda>kv. h (snd kv)) A"
  proof (rule map_cong [OF refl])
    fix kv assume "kv \<in> set A"
    then have "(fst kv, snd kv) \<in> set A" by simp
    with d have "map_of A (fst kv) = Some (snd kv)" by (rule map_of_is_SomeI)
    then show "h (the (map_of A (fst kv))) = h (snd kv)" by simp
  qed
  finally show ?thesis .
qed

lemma map_of_entries:
  assumes "key \<in> fst ` set A"
  shows "\<exists>s. map_of (map (\<lambda>kv. (fst kv, E (snd kv))) A) key = Some (E s)
             \<and> the (map_of A key) = s"
proof -
  from assms obtain s where s: "map_of A key = Some s"
    by (metis domD dom_map_of_conv_image_fst)
  have "map_of (map (\<lambda>kv. (fst kv, E (snd kv))) A) key = map_option E (map_of A key)"
    by (induction A) auto
  with s show ?thesis by simp
qed

lemma keyed_entries:
  "map (\<lambda>(i, s). (show_nat (i + 1), lls_entry s (hd (lls_lines s)))) en
     = map (\<lambda>kv. (fst kv, lls_entry (snd kv) (hd (lls_lines (snd kv)))))
         (map (\<lambda>(i, s). (show_nat (i + 1), s)) en)"
  by (induction en) auto

lemma keyed_fst:
  "map fst (map (\<lambda>(i, s). (show_nat (i + 1), lls_entry s (hd (lls_lines s)))) en)
     = map fst (map (\<lambda>(i, s). (show_nat (i + 1), s)) en)"
  by (induction en) auto

lemma keyed_fst2:
  "map fst (map (\<lambda>(i, s). (show_nat (i + 1), s)) en) = map (\<lambda>(i, s). show_nat (i + 1)) en"
  by (induction en) auto

lemma keyed_snd:
  "map snd (map (\<lambda>(i, s). (show_nat (i + 1), s)) (enumerate k syss)) = syss"
  by (induction syss arbitrary: k) auto

lemma read_back:
  assumes cm: "map_of d ''conti_model'' = Some cd"
    and co: "map_of d ''conti'' = Some (PList (map PFloat base))"
    and sf: "map_of d ''spec_file'' = Some sfv"
    and sm: "map_of d ''smooth'' = Some (opt_float smv)"
    and zq: "map_of d ''zqso'' = map_option PFloat zqv"
    and ll: "map_of d ''LLS'' = Some (PDict lls)"
    and loop: "init_lls_loop X lls (dict_keys X (map fst lls))
                 (g0\<lparr>conti_dict := cd, base_continuum := Some base,
                     continuum := from_tuple (dispersion sp, replicate (length (dispersion sp)) 1)\<rparr>)
               = Inr g2"
  shows "init_LLS X g0 (PDict d) sp = Inr (g2\<lparr>smooth := smv, zqso := zqv\<rparr>)"
proof -
  have zq': "(case dict_get d ''zqso'' of Inl e \<Rightarrow> Inr None | Inr q \<Rightarrow> as_opt_float q)
               = Inr zqv"
    using zq by (cases zqv) (simp_all add: dict_get_def as_opt_float_def)
  have q: "quantity (map_of d ''conti'') = Some base"
    by (simp add: co quantity_def float_list_PFloat)
  have s: "ebind (dict_get d ''smooth'') as_opt_float = Inr smv"
    by (simp add: dict_get_def sm as_opt_float_opt_float)
  have c: "dict_get d ''conti_model'' = Inr cd" "dict_get d ''spec_file'' = Inr sfv"
    "dict_get d ''LLS'' = Inr (PDict lls)"
    by (simp_all add: dict_get_def cm sf ll)
  show ?thesis
    unfolding init_LLS_def
    by (simp only: pyval.case c sum.case q option.case ebind_Inr loop s zq')
qed

lemma char_of_digits: "char_of (49 :: nat) = CHR ''1''" "char_of (50 :: nat) = CHR ''2''"
  by (simp_all add: char_of_def bit_iff_odd)

lemma show_nat_digits: "show_nat (Suc 0) = ''1''" "show_nat 2 = ''2''"
  by (simp_all add: show_nat.simps [of "Suc 0"] show_nat.simps [of 2] digit_char_def char_of_digits)

lemma py_strip_weak: "py_strip '' weak'' = ''weak''" "py_strip ''None'' = ''None''"
  by (simp_all add: py_strip_def py_isspace_def)

lemma ex_write_out_weak:
  "write_out ex_gui_weak = Inr (ex_gui_weak\<lparr>flag_write := True\<rparr>, ex_doc_weak)"
  by (simp add: write_out_def ex_gui_weak_def ex_gui_def ex_sys_weak_def new_lls_def ex_X_def
      ex_lines_def enumerate_eq_zip show_nat_digits lls_entry_def py_strip_weak dict_set_def
      dict_has_def ex_doc_weak_def ex_spec_def opt_float_def Let_def)

lemma ex_init_LLS_weak:
  "init_LLS ex_X ex_gui ex_doc_weak ex_spec
     = Inr (ex_gui\<lparr>count_lls := 1, all_abssys := [new_lls ex_X 0.9 17.5 30 ''weak'' 1]\<rparr>)"
  by (simp add: init_LLS_def ex_doc_weak_def dict_get_def quantity_def entry_get_def
      as_float_def as_string_def as_opt_float_def add_LLS_def Let_def ex_X_def ex_gui_def
      ex_spec_def ex_wave_def ex_ones_def from_tuple_def)

text \<open>
  C4 as stated fails for the comment: \<open>write_out\<close> writes
  \<^verbatim>\<open>str(lls.comment).strip()\<close>. The session \<open>ex_gui_weak\<close> holds one system with the
  comment \<^verbatim>\<open>' weak'\<close>; the document written for it holds \<^verbatim>\<open>'weak'\<close>, and \<open>init_LLS\<close>
  reads back a system with the comment \<^verbatim>\<open>'weak'\<close>.
\<close>

theorem write_out_init_LLS_counterexample:
  "write_out ex_gui_weak = Inr (ex_gui_weak\<lparr>flag_write := True\<rparr>, ex_doc_weak)
   \<and> init_LLS ex_X ex_gui ex_doc_weak ex_spec
       = Inr (ex_gui\<lparr>count_lls := 1, all_abssys := [new_lls ex_X 0.9 17.5 30 ''weak'' 1]\<rparr>)
   \<and> map comment (all_abssys ex_gui_weak) = ['' weak'']
   \<and> map comment (all_abssys (projr (init_LLS ex_X ex_gui ex_doc_weak ex_spec))) = [''weak'']"
  by (simp add: ex_write_out_weak ex_init_LLS_weak)
    (simp add: ex_gui_weak_def ex_sys_weak_def new_lls_def)


text \<open>
  C4, amended. Whenever \<open>write_out\<close> returns, \<open>init_LLS\<close> on the document it wrote
  returns and restores \<open>conti_dict\<close>, the base continuum, the smoothing parameter and
  \<open>zqso\<close>, and it adds one system for every system written, with its redshift, its
  \<open>NHI\<close>, the Doppler parameter of its first line and its comment without leading and
  trailing whitespace. The systems are added in the order in which the dict read from
  the file hands out its keys, some permutation of the keys written: they are the
  written systems as a multiset.
\<close>

theorem write_out_init_LLS_roundtrip:
  assumes w: "write_out g = Inr (g1, doc)"
    and order: "\<forall>ks. mset (dict_keys X ks) = mset ks"
  shows "\<exists>r. init_LLS X g0 doc sp = Inr r
           \<and> conti_dict r = conti_dict g
           \<and> base_continuum r = base_continuum g
           \<and> smooth r = smooth g
           \<and> zqso r = zqso g
           \<and> mset (map sys4 (drop (length (all_abssys g0)) (all_abssys r)))
               = mset (map written4 (all_abssys g))"
proof -
  define A where "A = map (\<lambda>(i, s). (show_nat (i + 1), s)) (enumerate 0 (all_abssys g))"
  define lls where "lls = map (\<lambda>(i, s). (show_nat (i + 1), lls_entry s (hd (lls_lines s))))
                (enumerate 0 (all_abssys g))"
  define keys where "keys = dict_keys X (map fst lls)"
  define pick where "pick = (\<lambda>key. the (map_of A key))"
  from write_out_doc [OF w] obtain base d where
    b: "base_continuum g = Some base" and doc: "doc = PDict d"
    and cm: "map_of d ''conti_model'' = Some (conti_dict g)"
    and co: "map_of d ''conti'' = Some (PList (map PFloat base))"
    and sf: "map_of d ''spec_file'' = Some (PStr (filename (spec g)))"
    and sm: "map_of d ''smooth'' = Some (opt_float (smooth g))"
    and zq: "map_of d ''zqso'' = map_option PFloat (zqso g)"
    and ll: "map_of d ''LLS'' = Some (PDict lls)"
    unfolding lls_def by blast
  define gc where "gc = g0\<lparr>conti_dict := conti_dict g, base_continuum := Some base,
                 continuum := from_tuple (dispersion sp, replicate (length (dispersion sp)) 1)\<rparr>"
  have lls_A: "lls = map (\<lambda>kv. (fst kv, lls_entry (snd kv) (hd (lls_lines (snd kv))))) A"
    unfolding lls_def A_def by (rule keyed_entries)
  have fstA: "map fst lls = map fst A"
    unfolding lls_def A_def by (rule keyed_fst)
  have dist: "distinct (map fst A)"
    unfolding A_def keyed_fst2 by (rule enumerate_keys_distinct)
  have sndA: "map snd A = all_abssys g"
    unfolding A_def by (rule keyed_snd)
  have km: "mset keys = mset (map fst A)"
    unfolding keys_def fstA using order by (rule spec)
  have look: "\<forall>key \<in> set keys. \<exists>s. map_of lls key = Some (lls_entry s (hd (lls_lines s)))
                                   \<and> pick key = s"
  proof
    fix key assume "key \<in> set keys"
    then have "key \<in> set (map fst A)" using km by (metis set_mset_mset)
    then have "key \<in> fst ` set A" by (simp only: set_map)
    from map_of_entries [OF this, of "\<lambda>s. lls_entry s (hd (lls_lines s))"]
    show "\<exists>s. map_of lls key = Some (lls_entry s (hd (lls_lines s))) \<and> pick key = s"
      unfolding lls_A pick_def .
  qed
  from init_lls_loop_reads [OF look, of X gc] obtain g2 where
    loop: "init_lls_loop X lls keys gc = Inr g2"
    and m: "map sys4 (all_abssys g2) = map sys4 (all_abssys gc) @ map (\<lambda>key. written4 (pick key)) keys"
    and c2: "conti_dict g2 = conti_dict gc" and b2: "base_continuum g2 = base_continuum gc"
    by blast
  define r where "r = g2\<lparr>smooth := smooth g, zqso := zqso g\<rparr>"
  have run: "init_LLS X g0 doc sp = Inr r"
    unfolding doc r_def
    by (rule read_back [OF cm co sf sm zq ll]) (use loop in \<open>simp only: keys_def gc_def\<close>)
  have "mset (map (\<lambda>key. written4 (pick key)) keys) = mset (map (\<lambda>kv. written4 (snd kv)) A)"
    unfolding pick_def by (rule perm_keys_mset [OF dist km])
  also have "map (\<lambda>kv. written4 (snd kv)) A = map written4 (map snd A)"
    by (simp only: map_map comp_def)
  finally have ms: "mset (map (\<lambda>key. written4 (pick key)) keys) = mset (map written4 (all_abssys g))"
    unfolding sndA .
  have len: "length (map sys4 (all_abssys gc)) = length (all_abssys g0)"
    unfolding gc_def by simp
  have "map sys4 (drop (length (all_abssys g0)) (all_abssys g2))
          = drop (length (all_abssys g0)) (map sys4 (all_abssys g2))"
    by (rule drop_map [symmetric])
  also have "\<dots> = map (\<lambda>key. written4 (pick key)) keys"
    unfolding m using len by (simp only: drop_append diff_self_eq_0 drop_0 drop_all order_refl append_Nil)
  finally have dr: "mset (map sys4 (drop (length (all_abssys g0)) (all_abssys g2)))
                  = mset (map written4 (all_abssys g))"
    using ms by (simp only:)
  have f: "conti_dict r = conti_dict g" "base_continuum r = base_continuum g"
    "smooth r = smooth g" "zqso r = zqso g" "all_abssys r = all_abssys g2"
    unfolding r_def using c2 b2 b by (simp_all add: gc_def)
  from run f dr show ?thesis by (metis (no_types))
qed

lemma ex_write_out_two: "\<exists>g1 doc. write_out ex_gui_two = Inr (g1, doc)"
  by (simp add: write_out_def ex_gui_two_def ex_gui_def ex_sys_def ex_sys2_def new_lls_def ex_X_def
      ex_lines_def enumerate_eq_zip Let_def)

lemma ex_written_two:
  "map written4 (all_abssys ex_gui_two) = [(1, 17.3, 20, ''None''), (0.9, 17.5, 30, ''weak'')]"
  by (simp add: written4_def ex_gui_two_def ex_sys_def ex_sys2_def new_lls_def ex_X_def
      ex_lines_def py_strip_weak)

theorem write_out_init_LLS_roundtrip_witness:
  "\<exists>r. init_LLS ex_X ex_gui (snd (projr (write_out ex_gui_two))) ex_spec = Inr r
       \<and> conti_dict r = conti_dict ex_gui_two
       \<and> base_continuum r = base_continuum ex_gui_two
       \<and> smooth r = smooth ex_gui_two
       \<and> zqso r = zqso ex_gui_two
       \<and> mset (map sys4 (all_abssys r))
           = mset [(1, 17.3, 20, ''None''), (0.9, 17.5, 30, ''weak'')]"
proof -
  from ex_write_out_two obtain g1 doc where w: "write_out ex_gui_two = Inr (g1, doc)"
    by blast
  have o: "\<forall>ks. mset (dict_keys ex_X ks) = mset ks"
    by (simp add: ex_X_def)
  have d: "snd (projr (write_out ex_gui_two)) = doc"
    by (simp add: w)
  have n: "length (all_abssys ex_gui) = 0"
    by (simp add: ex_gui_def)
  from write_out_init_LLS_roundtrip [OF w o, of ex_gui ex_spec]
  show ?thesis
    unfolding d n drop_0 ex_written_two .
qed

end
